theory Spec2Isabelle
  imports Main "HOL-Library.Word"
begin

section \<open>Characters and strings\<close>

text \<open>
  A \<open>std::string\<close> is a sequence of bytes: \<^typ>\<open>string\<close>. The two characters that the
  quoting rules escape are written by their byte values.
\<close>

abbreviation DQUOTE :: char where
  "DQUOTE \<equiv> CHR 0x22"

abbreviation BACKSLASH :: char where
  "BACKSLASH \<equiv> CHR 0x5C"

text \<open>
  \<open>isspace\<close> of the C library, in the "C" locale (the locale of a program that never calls
  \<open>setlocale\<close>): space, and the five control characters \<open>\t \n \v \f \r\<close> (bytes 9 to 13).
\<close>

definition isspace :: "char \<Rightarrow> bool" where
  "isspace c = (c = CHR 0x20 \<or> c = CHR 0x09 \<or> c = CHR 0x0A \<or> c = CHR 0x0B \<or> c = CHR 0x0C \<or> c = CHR 0x0D)"

text \<open>
  \<open>to_quote[c]\<close>: \<open>operator[]\<close> of \<open>std::string\<close>. At \<open>c = size()\<close> it is the terminating
  NUL; every call site of this file passes the string's own length as \<open>size\<close>
  (\<open>child.GetString()\<close> with \<open>child.GetSize()\<close>), so no read goes further.
\<close>

definition string_at :: "string \<Rightarrow> nat \<Rightarrow> char" where
  "string_at s c = (if c < length s then s ! c else CHR 0x00)"

section \<open>Quoting and escaping (lines 113 to 163)\<close>

text \<open>The characters of the \<open>switch\<close> in \<open>NeedsQuotes\<close>.\<close>

definition quote_chars :: "char set" where
  "quote_chars = {DQUOTE, BACKSLASH, CHR ''{'', CHR ''}'', CHR ''('', CHR '')'', CHR '',''}"

text \<open>The \<open>for\<close> loop of \<open>NeedsQuotes\<close>, from index \<open>c\<close> on.\<close>

function NeedsQuotes_loop :: "string \<Rightarrow> nat \<Rightarrow> nat \<Rightarrow> bool" where
  "NeedsQuotes_loop to_quote sz c =
     (if c < sz then
        (if string_at to_quote c \<in> quote_chars then True
         else NeedsQuotes_loop to_quote sz (Suc c))
      else False)"
  by pat_completeness auto
termination
  by (relation "measure (\<lambda>(to_quote, sz, c). sz - c)") auto

declare NeedsQuotes_loop.simps [simp del]

definition NeedsQuotes :: "string \<Rightarrow> nat \<Rightarrow> bool" where
  "NeedsQuotes to_quote sz =
     (if sz \<le> 0 then True
      else if isspace (string_at to_quote 0) then True
      else if isspace (string_at to_quote (sz - 1)) then True
      else NeedsQuotes_loop to_quote sz 0)"

text \<open>
  \<open>EscapeQuotes\<close> appends to \<open>result\<close>; the loop from index \<open>c\<close> on, returning the new
  \<open>result\<close>. The \<open>switch\<close> has no \<open>break\<close>: after the backslash the character itself is
  appended in every case.
\<close>

function EscapeQuotes_loop :: "string \<Rightarrow> string \<Rightarrow> nat \<Rightarrow> nat \<Rightarrow> string" where
  "EscapeQuotes_loop to_escape result sz c =
     (if c < sz then
        (let result1 = (if string_at to_escape c = DQUOTE \<or> string_at to_escape c = BACKSLASH
                        then result @ [BACKSLASH] else result)
         in EscapeQuotes_loop to_escape (result1 @ [string_at to_escape c]) sz (Suc c))
      else result)"
  by pat_completeness auto
termination
  by (relation "measure (\<lambda>(to_escape, result, sz, c). sz - c)") auto

declare EscapeQuotes_loop.simps [simp del]

definition EscapeQuotes :: "string \<Rightarrow> string \<Rightarrow> nat \<Rightarrow> string" where
  "EscapeQuotes to_escape result sz = EscapeQuotes_loop to_escape result sz 0"

definition QuoteAndEscapeIfNeeded :: "string \<Rightarrow> string \<Rightarrow> nat \<Rightarrow> string" where
  "QuoteAndEscapeIfNeeded to_quote result sz =
     (if \<not> NeedsQuotes to_quote sz then result @ to_quote
      else EscapeQuotes to_quote (result @ [DQUOTE]) sz @ [DQUOTE])"

subsection \<open>The quoting grammar, as the specification words it\<close>

text \<open>
  "Prefixes every \<open>"\<close> and \<open>\\<close> with a backslash; all other bytes pass through unchanged."
\<close>

definition escape_spec :: "string \<Rightarrow> string" where
  "escape_spec v = concat (map (\<lambda>c. if c = DQUOTE \<or> c = BACKSLASH then [BACKSLASH, c] else [c]) v)"

text \<open>"Undo the backslash prefixes": a backslash stands for the character after it.\<close>

fun unescape_spec :: "string \<Rightarrow> string" where
  "unescape_spec [] = []"
| "unescape_spec [c] = [c]"
| "unescape_spec (c # d # cs) =
     (if c = BACKSLASH then d # unescape_spec cs else c # unescape_spec (d # cs))"

text \<open>
  Parsing a token back: a token that starts with a double quote is a quoted one, whose
  outer quotes are stripped and whose backslash prefixes are undone; any other token
  stands for itself.
\<close>

definition parse_spec :: "string \<Rightarrow> string" where
  "parse_spec t =
     (if t \<noteq> [] \<and> hd t = DQUOTE then unescape_spec (butlast (tl t)) else t)"

section \<open>Vectors\<close>

text \<open>
  A flat vector of \<open>string_t\<close> (a VARCHAR or a BLOB column): the validity mask and the data
  array, both indexed by row. \<open>validity v r\<close> is \<open>RowIsValid(r)\<close>.
\<close>

record flat_string_vector =
  validity :: "nat \<Rightarrow> bool"
  string_data :: "nat \<Rightarrow> string"

definition FlatVector_IsNull :: "flat_string_vector \<Rightarrow> nat \<Rightarrow> bool" where
  "FlatVector_IsNull v r = (\<not> validity v r)"

definition FlatVector_SetNull :: "flat_string_vector \<Rightarrow> nat \<Rightarrow> bool \<Rightarrow> flat_string_vector" where
  "FlatVector_SetNull v r is_null = v\<lparr>validity := (validity v)(r := \<not> is_null)\<rparr>"

text \<open>\<open>result_entries[r] = StringVector::AddString(vector, s)\<close>: only the data array changes.\<close>

definition set_entry :: "flat_string_vector \<Rightarrow> nat \<Rightarrow> string \<Rightarrow> flat_string_vector" where
  "set_entry v r s = v\<lparr>string_data := (string_data v)(r := s)\<rparr>"

text \<open>
  \<open>Vector(LogicalType::VARCHAR, capacity)\<close>: a new vector has no validity mask, so every
  row reads as valid; its data array is not initialised (no row is read here before it
  is written; the model holds empty strings).
\<close>

definition Vector_VARCHAR :: "nat \<Rightarrow> flat_string_vector" where
  "Vector_VARCHAR capacity = \<lparr>validity = (\<lambda>r. True), string_data = (\<lambda>r. [])\<rparr>"

record list_entry_t =
  list_offset :: nat
  list_length :: nat

text \<open>
  An input vector, by the type id that \<open>CastToPostgresVarchar\<close> switches on. A list vector
  has its validity mask, its \<open>list_entry_t\<close> array, the child vector and the child's size
  (\<open>ListVector::GetListSize\<close>); a struct vector its validity mask and its child vectors; a
  vector of any other type is opaque here (\<open>'p\<close>): only \<open>VectorOperations::Cast\<close> reads it.
\<close>

datatype LogicalTypeId = LIST | STRUCT | BLOB | OTHER_TYPE

datatype 'p Vector =
    ListVector "nat \<Rightarrow> bool" "nat \<Rightarrow> list_entry_t" "'p Vector" nat
  | StructVector "nat \<Rightarrow> bool" "'p Vector list"
  | BlobVector flat_string_vector
  | OtherVector 'p

fun GetType_id :: "'p Vector \<Rightarrow> LogicalTypeId" where
  "GetType_id (ListVector m e c n) = LIST"
| "GetType_id (StructVector m cs) = STRUCT"
| "GetType_id (BlobVector b) = BLOB"
| "GetType_id (OtherVector p) = OTHER_TYPE"

section \<open>Casting nested types to text (lines 167 to 278)\<close>

text \<open>\<open>for (idx_t i = start; i < n; i++) s = body(i, s)\<close>.\<close>

function for_loop :: "nat \<Rightarrow> nat \<Rightarrow> (nat \<Rightarrow> 's \<Rightarrow> 's) \<Rightarrow> 's \<Rightarrow> 's" where
  "for_loop i n body s = (if i < n then for_loop (Suc i) n body (body i s) else s)"
  by pat_completeness auto
termination
  by (relation "measure (\<lambda>(i, n, body, s). n - i)") auto

declare for_loop.simps [simp del]

definition HEX_STRING :: string where
  "HEX_STRING = ''0123456789ABCDEF''"

text \<open>
  The body of the byte loop of \<open>CastBlobToPostgres\<close>: \<open>blob_data\<close> and \<open>blob_size\<close> are the
  bytes and the size of the one \<open>string_t\<close>, read as \<open>uint8_t\<close>.
\<close>

definition blob_byte :: "string \<Rightarrow> nat \<Rightarrow> string \<Rightarrow> string" where
  "blob_byte blob_data c blob_str =
     (blob_str @ [HEX_STRING ! (of_char (blob_data ! c) div 16)])
       @ [HEX_STRING ! (of_char (blob_data ! c) mod 16)]"

definition CastBlobToPostgres ::
  "flat_string_vector \<Rightarrow> flat_string_vector \<Rightarrow> nat \<Rightarrow> flat_string_vector" where
  "CastBlobToPostgres input result sz =
     for_loop 0 sz
       (\<lambda>r result.
          if FlatVector_IsNull input r then FlatVector_SetNull result r True
          else
            let blob_data = string_data input r;
                blob_size = length blob_data;
                blob_str = for_loop 0 blob_size (blob_byte blob_data) [BACKSLASH, CHR ''x'']
            in set_entry result r blob_str)
       result"

text \<open>The body of the element loop of \<open>CastListToPostgresArray\<close>.\<close>

definition list_element ::
  "flat_string_vector \<Rightarrow> bool \<Rightarrow> list_entry_t \<Rightarrow> nat \<Rightarrow> string \<Rightarrow> string" where
  "list_element child_varchar skip_quoting list_entry list_idx result =
     (let result1 = (if list_idx > 0 then result @ '','' else result);
          child_idx = list_offset list_entry + list_idx
      in if FlatVector_IsNull child_varchar child_idx then result1 @ ''NULL''
         else
           let child = string_data child_varchar child_idx
           in if skip_quoting then result1 @ child
              else QuoteAndEscapeIfNeeded child result1 (length child))"

text \<open>The body of the field loop of \<open>CastStructToPostgres\<close>, for row \<open>r\<close>.\<close>

definition struct_field :: "flat_string_vector list \<Rightarrow> nat \<Rightarrow> nat \<Rightarrow> string \<Rightarrow> string" where
  "struct_field child_varchar_vectors r c result =
     (let result1 = (if c > 0 then result @ '','' else result)
      in if FlatVector_IsNull (child_varchar_vectors ! c) r then result1 @ []
         else
           let child = string_data (child_varchar_vectors ! c) r
           in QuoteAndEscapeIfNeeded child result1 (length child))"

text \<open>
  The three casts and their dispatch. \<open>VectorOperations_Cast\<close> is the engine's cast of
  every other type to VARCHAR, which this file only calls. A list's child is cast once,
  for the whole child buffer, into a new vector; each field of a struct into a new
  vector of its own.
\<close>

fun CastToPostgresVarchar ::
    "('p \<Rightarrow> flat_string_vector \<Rightarrow> nat \<Rightarrow> flat_string_vector) \<Rightarrow>
     'p Vector \<Rightarrow> flat_string_vector \<Rightarrow> nat \<Rightarrow> flat_string_vector"
  and CastListToPostgresArray ::
    "('p \<Rightarrow> flat_string_vector \<Rightarrow> nat \<Rightarrow> flat_string_vector) \<Rightarrow>
     'p Vector \<Rightarrow> flat_string_vector \<Rightarrow> nat \<Rightarrow> flat_string_vector"
  and CastStructToPostgres ::
    "('p \<Rightarrow> flat_string_vector \<Rightarrow> nat \<Rightarrow> flat_string_vector) \<Rightarrow>
     'p Vector \<Rightarrow> flat_string_vector \<Rightarrow> nat \<Rightarrow> flat_string_vector"
where
  "CastToPostgresVarchar VectorOperations_Cast (ListVector m e child_data child_count) result sz =
     CastListToPostgresArray VectorOperations_Cast (ListVector m e child_data child_count) result sz"
| "CastToPostgresVarchar VectorOperations_Cast (StructVector m child_vectors) result sz =
     CastStructToPostgres VectorOperations_Cast (StructVector m child_vectors) result sz"
| "CastToPostgresVarchar VectorOperations_Cast (BlobVector b) result sz =
     CastBlobToPostgres b result sz"
| "CastToPostgresVarchar VectorOperations_Cast (OtherVector p) result sz =
     VectorOperations_Cast p result sz"
| "CastListToPostgresArray VectorOperations_Cast (ListVector m list_entries child_data child_count)
       varchar_vector sz =
     (let skip_quoting = (GetType_id child_data = LIST);
          child_varchar =
            CastToPostgresVarchar VectorOperations_Cast child_data
              (Vector_VARCHAR child_count) child_count
      in for_loop 0 sz
           (\<lambda>r varchar_vector.
              if \<not> m r then FlatVector_SetNull varchar_vector r True
              else
                let list_entry = list_entries r;
                    result = for_loop 0 (list_length list_entry)
                               (list_element child_varchar skip_quoting list_entry) ''{''
                in set_entry varchar_vector r (result @ ''}''))
           varchar_vector)"
| "CastStructToPostgres VectorOperations_Cast (StructVector m child_vectors) varchar_vector sz =
     (let child_varchar_vectors =
            map (\<lambda>child. CastToPostgresVarchar VectorOperations_Cast child (Vector_VARCHAR sz) sz)
              child_vectors
      in for_loop 0 sz
           (\<lambda>r varchar_vector.
              if \<not> m r then FlatVector_SetNull varchar_vector r True
              else
                let result = for_loop 0 (length child_varchar_vectors)
                               (struct_field child_varchar_vectors r) ''(''
                in set_entry varchar_vector r (result @ '')''))
           varchar_vector)"

declare CastListToPostgresArray.simps [simp del]

declare CastStructToPostgres.simps [simp del]

section \<open>The copy session (lines 8 to 111)\<close>

text \<open>
  The copy format of the session. The source names two enumerators; the \<open>switch\<close> of
  \<open>BeginCopyTo\<close> has a \<open>default\<close> branch for any other value.
\<close>

datatype PostgresCopyFormat = BINARY | TEXT | OTHER_FORMAT

record PostgresCopyState =
  format :: PostgresCopyFormat
  has_null_byte_replacement :: bool
  null_byte_replacement :: string

datatype exception = InternalException string | runtime_error string

text \<open>
  The value of a setting: NULL or a string. \<open>context.TryGetCurrentSetting(name, value)\<close> is
  a lookup: \<open>None\<close> when it returns false.
\<close>

datatype Value = Value_NULL | Value_String string

type_synonym ClientContext = "string \<Rightarrow> Value option"

text \<open>The loop of \<open>Initialize\<close> over the characters: true when it throws.\<close>

fun Initialize_loop :: "string \<Rightarrow> bool" where
  "Initialize_loop [] = False"
| "Initialize_loop (c # replacement_str) =
     (if c = CHR 0x00 then True else Initialize_loop replacement_str)"

definition Initialize :: "ClientContext \<Rightarrow> PostgresCopyState \<Rightarrow> exception + PostgresCopyState" where
  "Initialize context state =
     (case context ''pg_null_byte_replacement'' of
        None \<Rightarrow> Inr state
      | Some Value_NULL \<Rightarrow> Inr state
      | Some (Value_String replacement_str) \<Rightarrow>
          if Initialize_loop replacement_str
          then Inl (InternalException ''NULL byte replacement string cannot contain NULL values'')
          else Inr (state\<lparr>has_null_byte_replacement := True,
                           null_byte_replacement := replacement_str\<rparr>))"

subsection \<open>The connection\<close>

text \<open>
  The calls made on the connection, in order, are the state of the connection; what the
  client library answers is a function of the calls made before. A \<open>PGresult\<close> pointer is
  \<open>None\<close> when null.
\<close>

datatype ExecStatusType =
    PGRES_EMPTY_QUERY | PGRES_COMMAND_OK | PGRES_TUPLES_OK | PGRES_COPY_OUT | PGRES_COPY_IN
  | PGRES_BAD_RESPONSE | PGRES_NONFATAL_ERROR | PGRES_FATAL_ERROR

record PGresult =
  result_status :: ExecStatusType
  result_error_message :: string

datatype pq_call =
    PQExecute_call string
  | PQputCopyData_call string int
  | PQputCopyEnd_call
  | PQgetResult_call

type_synonym PGconn = "pq_call list"

record libpq =
  PQExecute_answer :: "PGconn \<Rightarrow> string \<Rightarrow> PGresult option"
  PQputCopyData_answer :: "PGconn \<Rightarrow> string \<Rightarrow> int \<Rightarrow> int"
  PQputCopyEnd_answer :: "PGconn \<Rightarrow> int"
  PQgetResult_answer :: "PGconn \<Rightarrow> PGresult option"
  PQerrorMessage :: "PGconn \<Rightarrow> string"

text \<open>\<open>PQresultErrorMessage\<close> of a null result is the empty string.\<close>

definition PQresultErrorMessage :: "PGresult option \<Rightarrow> string" where
  "PQresultErrorMessage result = (case result of None \<Rightarrow> [] | Some res \<Rightarrow> result_error_message res)"

text \<open>\<open>PQresultStatus\<close> of a null result is \<open>PGRES_FATAL_ERROR\<close>.\<close>

definition PQresultStatus :: "PGresult option \<Rightarrow> ExecStatusType" where
  "PQresultStatus result = (case result of None \<Rightarrow> PGRES_FATAL_ERROR | Some res \<Rightarrow> result_status res)"

text \<open>\<open>query.c_str()\<close>: the characters before the first NUL.\<close>

definition c_str :: "string \<Rightarrow> string" where
  "c_str s = takeWhile (\<lambda>c. c \<noteq> CHR 0x00) s"

text \<open>\<open>int(size)\<close>: the 64-bit size narrowed to a signed 32-bit integer.\<close>

definition int_of_idx :: "nat \<Rightarrow> int" where
  "int_of_idx n = sint (word_of_nat n :: 32 word)"

text \<open>
  The writers of this repository are not in the source file: what a new writer's stream
  holds after \<open>WriteHeader\<close> or \<open>WriteFooter\<close> is a parameter.
\<close>

record writers =
  PostgresBinaryWriter_WriteHeader :: "PostgresCopyState \<Rightarrow> string"
  PostgresBinaryWriter_WriteFooter :: "PostgresCopyState \<Rightarrow> string"
  PostgresTextWriter_WriteFooter :: "PostgresCopyState \<Rightarrow> string"

text \<open>
  The \<open>do ... while (result == 0)\<close> of \<open>CopyData\<close>: the last answer and the connection after
  the calls; \<open>None\<close> when the loop never ends.
\<close>

partial_function (option) CopyData_loop ::
  "libpq \<Rightarrow> PGconn \<Rightarrow> string \<Rightarrow> nat \<Rightarrow> (int \<times> PGconn) option" where
  "CopyData_loop pq conn buffer sz =
     (if PQputCopyData_answer pq conn buffer (int_of_idx sz) = 0
      then CopyData_loop pq (conn @ [PQputCopyData_call buffer (int_of_idx sz)]) buffer sz
      else Some (PQputCopyData_answer pq conn buffer (int_of_idx sz),
                 conn @ [PQputCopyData_call buffer (int_of_idx sz)]))"

definition CopyData ::
  "libpq \<Rightarrow> PGconn \<Rightarrow> string \<Rightarrow> nat \<Rightarrow> ((exception + unit) \<times> PGconn) option" where
  "CopyData pq conn buffer sz =
     (case CopyData_loop pq conn buffer sz of
        None \<Rightarrow> None
      | Some (result, conn1) \<Rightarrow>
          if result = - 1
          then Some (Inl (InternalException (''Error during PQputCopyData: '' @ PQerrorMessage pq conn1)),
                     conn1)
          else Some (Inr (), conn1))"

text \<open>\<open>CopyData(writer)\<close>: the stream's data and position.\<close>

definition CopyData_writer ::
  "libpq \<Rightarrow> PGconn \<Rightarrow> string \<Rightarrow> ((exception + unit) \<times> PGconn) option" where
  "CopyData_writer pq conn stream = CopyData pq conn stream (length stream)"

text \<open>
  Lines 29 to 57 of \<open>BeginCopyTo\<close>: the query text and the state, or the exception thrown
  on the way. \<open>WriteQuoted\<close> is \<open>KeywordHelper::WriteQuoted\<close> of the engine.
\<close>

definition BeginCopyTo_query ::
  "(string \<Rightarrow> char \<Rightarrow> string) \<Rightarrow> ClientContext \<Rightarrow> PostgresCopyState \<Rightarrow> PostgresCopyFormat \<Rightarrow>
   string \<Rightarrow> string \<Rightarrow> string list \<Rightarrow> (exception + string) \<times> PostgresCopyState" where
  "BeginCopyTo_query WriteQuoted context state fmt schema_name table_name column_names =
     (let query = ''COPY '';
          query = (if schema_name \<noteq> [] then query @ WriteQuoted schema_name DQUOTE @ ''.''
                   else query);
          query = query @ WriteQuoted table_name DQUOTE @ '' '';
          query = (if column_names \<noteq> []
                   then for_loop 0 (length column_names)
                          (\<lambda>c query. (if c > 0 then query @ '', '' else query)
                                       @ WriteQuoted (column_names ! c) DQUOTE)
                          (query @ ''('')
                        @ '') ''
                   else query);
          query = query @ ''FROM STDIN ''
      in case Initialize context state of
           Inl e \<Rightarrow> (Inl e, state)
         | Inr state \<Rightarrow>
             let state = state\<lparr>format := fmt\<rparr>
             in case format state of
                  BINARY \<Rightarrow> (Inr ((query @ ''BINARY'') @ '')''), state)
                | TEXT \<Rightarrow>
                    (Inr ((query @ ''TEXT (NULL '' @ [CHR 0x27, CHR 0x08, CHR 0x27] @ '')'') @ '')''),
                     state)
                | OTHER_FORMAT \<Rightarrow>
                    (Inl (InternalException ''Unsupported type for postgres copy format''), state))"

text \<open>\<open>BeginCopyTo\<close>: the outcome, the state and the connection; \<open>None\<close> when it never returns.\<close>

definition BeginCopyTo ::
  "libpq \<Rightarrow> writers \<Rightarrow> (string \<Rightarrow> char \<Rightarrow> string) \<Rightarrow> ClientContext \<Rightarrow> PGconn \<Rightarrow>
   PostgresCopyState \<Rightarrow> PostgresCopyFormat \<Rightarrow> string \<Rightarrow> string \<Rightarrow> string list \<Rightarrow>
   ((exception + unit) \<times> PostgresCopyState \<times> PGconn) option" where
  "BeginCopyTo pq w WriteQuoted context conn state fmt schema_name table_name column_names =
     (case BeginCopyTo_query WriteQuoted context state fmt schema_name table_name column_names of
        (Inl e, state) \<Rightarrow> Some (Inl e, state, conn)
      | (Inr query, state) \<Rightarrow>
          let result = PQExecute_answer pq conn (c_str query);
              conn = conn @ [PQExecute_call (c_str query)]
          in if result = None \<or> PQresultStatus result \<noteq> PGRES_COPY_IN
             then Some (Inl (runtime_error
                          (''Failed to prepare COPY '' @ [DQUOTE] @ query @ [DQUOTE] @ '': ''
                             @ PQresultErrorMessage result)),
                        state, conn)
             else if format state = BINARY
             then (case CopyData_writer pq conn (PostgresBinaryWriter_WriteHeader w state) of
                     None \<Rightarrow> None
                   | Some (outcome, conn) \<Rightarrow> Some (outcome, state, conn))
             else Some (Inr (), state, conn))"

definition FinishCopyTo ::
  "libpq \<Rightarrow> writers \<Rightarrow> PGconn \<Rightarrow> PostgresCopyState \<Rightarrow> ((exception + unit) \<times> PGconn) option" where
  "FinishCopyTo pq w conn state =
     (case (if format state = BINARY
            then CopyData_writer pq conn (PostgresBinaryWriter_WriteFooter w state)
            else if format state = TEXT
            then CopyData_writer pq conn (PostgresTextWriter_WriteFooter w state)
            else Some (Inr (), conn)) of
        None \<Rightarrow> None
      | Some (Inl e, conn) \<Rightarrow> Some (Inl e, conn)
      | Some (Inr u, conn) \<Rightarrow>
          let result_code = PQputCopyEnd_answer pq conn;
              conn = conn @ [PQputCopyEnd_call]
          in if result_code \<noteq> 1
             then Some (Inl (InternalException
                          (''Error during PQputCopyEnd: '' @ PQerrorMessage pq conn)), conn)
             else
               let result = PQgetResult_answer pq conn;
                   conn = conn @ [PQgetResult_call]
               in if result = None \<or> PQresultStatus result \<noteq> PGRES_COMMAND_OK
                  then Some (Inl (runtime_error
                               (''Failed to copy data: '' @ PQresultErrorMessage result)), conn)
                  else Some (Inr (), conn))"

text \<open>
  A client library that answers by script: the answer to a send by the number of calls
  made before it, every other answer fixed.
\<close>

definition scripted_libpq ::
  "PGresult option \<Rightarrow> (nat \<Rightarrow> int) \<Rightarrow> int \<Rightarrow> PGresult option \<Rightarrow> string \<Rightarrow> libpq" where
  "scripted_libpq executed sends ended final message =
     \<lparr>PQExecute_answer = (\<lambda>conn query. executed),
      PQputCopyData_answer = (\<lambda>conn buffer nbytes. sends (length conn)),
      PQputCopyEnd_answer = (\<lambda>conn. ended),
      PQgetResult_answer = (\<lambda>conn. final),
      PQerrorMessage = (\<lambda>conn. message)\<rparr>"

subsection \<open>The literals, as the specification words them\<close>

text \<open>"Elements joined by \<open>,\<close>": the separator stands between two neighbours only.\<close>

fun join_spec :: "string \<Rightarrow> string list \<Rightarrow> string" where
  "join_spec sep [] = []"
| "join_spec sep [x] = x"
| "join_spec sep (x # y # ys) = x @ sep @ join_spec sep (y # ys)"

text \<open>An uppercase hexadecimal digit: \<open>0\<close> to \<open>9\<close>, then \<open>A\<close> to \<open>F\<close>.\<close>

definition hex_digit_spec :: "nat \<Rightarrow> char" where
  "hex_digit_spec n = (if n < 10 then char_of (of_char CHR ''0'' + n) else char_of (of_char CHR ''A'' + (n - 10)))"

text \<open>"One uppercase two-hex-digit pair per byte": the high nibble, then the low one.\<close>

definition hex_pair_spec :: "char \<Rightarrow> string" where
  "hex_pair_spec b = [hex_digit_spec (of_char b div 16), hex_digit_spec (of_char b mod 16)]"

text \<open>\<open>has_rows v i rows\<close>: from row \<open>i\<close> on, the vector holds the given rows (\<open>None\<close> is a null row).\<close>

fun has_rows :: "flat_string_vector \<Rightarrow> nat \<Rightarrow> string option list \<Rightarrow> bool" where
  "has_rows v i [] = True"
| "has_rows v i (None # rows) = (\<not> validity v i \<and> has_rows v (Suc i) rows)"
| "has_rows v i (Some s # rows) = (validity v i \<and> string_data v i = s \<and> has_rows v (Suc i) rows)"

text \<open>
  An element of an array literal: the token \<open>NULL\<close> for a null child row, the child literal
  as it is when the child is itself a list, the child text through
  \<open>QuoteAndEscapeIfNeeded\<close> otherwise.
\<close>

definition array_element_spec :: "flat_string_vector \<Rightarrow> bool \<Rightarrow> nat \<Rightarrow> string" where
  "array_element_spec child_text child_is_list i =
     (if \<not> validity child_text i then ''NULL''
      else if child_is_list then string_data child_text i
      else QuoteAndEscapeIfNeeded (string_data child_text i) [] (length (string_data child_text i)))"

text \<open>
  A field of a composite literal: nothing for a null field, the field text through
  \<open>QuoteAndEscapeIfNeeded\<close> otherwise.
\<close>

definition composite_field_spec :: "flat_string_vector \<Rightarrow> nat \<Rightarrow> string" where
  "composite_field_spec field_text r =
     (if \<not> validity field_text r then []
      else QuoteAndEscapeIfNeeded (string_data field_text r) [] (length (string_data field_text r)))"

text \<open>
  The command text: \<open>COPY [<schema>.]<table> [(<col1>, <col2>, ...)] FROM STDIN BINARY)\<close> or
  \<open>COPY ... FROM STDIN TEXT (NULL '<marker>'))\<close>, the marker being the backspace character,
  with every identifier quoted by \<open>quoted\<close>.
\<close>

definition copy_command_spec ::
  "(string \<Rightarrow> string) \<Rightarrow> PostgresCopyFormat \<Rightarrow> string \<Rightarrow> string \<Rightarrow> string list \<Rightarrow> string" where
  "copy_command_spec quoted fmt schema_name table_name column_names =
     ''COPY ''
     @ (if schema_name = [] then [] else quoted schema_name @ ''.'')
     @ quoted table_name @ '' ''
     @ (if column_names = [] then []
        else ''('' @ join_spec '', '' (map quoted column_names) @ '') '')
     @ ''FROM STDIN ''
     @ (if fmt = BINARY then ''BINARY)''
        else ''TEXT (NULL '' @ [CHR 0x27, CHR 0x08, CHR 0x27] @ ''))'')"

section \<open>Properties of the quoting rules\<close>

lemma NeedsQuotes_loop_iff:
  "sz \<le> length s \<Longrightarrow>
   NeedsQuotes_loop s sz c = (\<exists>i. c \<le> i \<and> i < sz \<and> s ! i \<in> quote_chars)"
proof (induction s sz c rule: NeedsQuotes_loop.induct)
  case (1 to_quote sz c)
  show ?case
  proof (cases "c < sz")
    case False
    then show ?thesis by (subst NeedsQuotes_loop.simps) auto
  next
    case True
    note lt = this
    show ?thesis
    proof (cases "string_at to_quote c \<in> quote_chars")
      case True
      with lt "1.prems" show ?thesis
        by (subst NeedsQuotes_loop.simps) (auto simp: string_at_def intro!: exI [of _ c])
    next
      case False
      with lt "1.prems" have nc: "to_quote ! c \<notin> quote_chars"
        by (simp add: string_at_def)
      have "NeedsQuotes_loop to_quote sz c = NeedsQuotes_loop to_quote sz (Suc c)"
        using lt False by (subst NeedsQuotes_loop.simps) simp
      also have "\<dots> = (\<exists>i. Suc c \<le> i \<and> i < sz \<and> to_quote ! i \<in> quote_chars)"
        using "1.IH" [OF lt False "1.prems"] .
      also have "\<dots> = (\<exists>i. c \<le> i \<and> i < sz \<and> to_quote ! i \<in> quote_chars)"
        using nc by (metis Suc_leD Suc_leI le_neq_implies_less)
      finally show ?thesis .
    qed
  qed
qed

lemma NeedsQuotes_loop_set:
  "NeedsQuotes_loop s (length s) 0 = (set s \<inter> quote_chars \<noteq> {})"
proof -
  have "NeedsQuotes_loop s (length s) 0 = (\<exists>i. i < length s \<and> s ! i \<in> quote_chars)"
    by (simp add: NeedsQuotes_loop_iff)
  also have "\<dots> = (\<exists>x \<in> set s. x \<in> quote_chars)"
    by (metis in_set_conv_nth)
  finally show ?thesis by auto
qed

lemma NeedsQuotes_iff:
  "NeedsQuotes s (length s) =
     (s = [] \<or> isspace (hd s) \<or> isspace (last s) \<or> set s \<inter> quote_chars \<noteq> {})"
proof (cases s)
  case Nil
  then show ?thesis by (simp add: NeedsQuotes_def)
next
  case (Cons a as)
  then have ne: "s \<noteq> []" by simp
  then have at: "string_at s 0 = hd s" "string_at s (length s - Suc 0) = last s"
    by (simp_all add: string_at_def last_conv_nth hd_conv_nth)
  show ?thesis
    using ne by (simp add: NeedsQuotes_def NeedsQuotes_loop_set at)
qed

lemma EscapeQuotes_loop_eq:
  "sz \<le> length s \<Longrightarrow>
   EscapeQuotes_loop s result sz c = result @ escape_spec (take (sz - c) (drop c s))"
proof (induction s result sz c rule: EscapeQuotes_loop.induct)
  case (1 to_escape result sz c)
  show ?case
  proof (cases "c < sz")
    case False
    then show ?thesis by (subst EscapeQuotes_loop.simps) (simp add: escape_spec_def)
  next
    case True
    then have c: "c < length to_escape" using "1.prems" by simp
    have split: "take (sz - c) (drop c to_escape) =
        to_escape ! c # take (sz - Suc c) (drop (Suc c) to_escape)"
      using True c
      by (metis Cons_nth_drop_Suc Suc_diff_Suc take_Suc_Cons)
    show ?thesis
      using True c "1.IH" [OF True refl "1.prems"]
      by (subst EscapeQuotes_loop.simps)
         (simp add: split escape_spec_def string_at_def Let_def)
  qed
qed

lemma EscapeQuotes_eq:
  "EscapeQuotes s result (length s) = result @ escape_spec s"
  by (simp add: EscapeQuotes_def EscapeQuotes_loop_eq)

lemma QuoteAndEscapeIfNeeded_eq:
  "QuoteAndEscapeIfNeeded s result (length s) =
     result @ (if NeedsQuotes s (length s) then [DQUOTE] @ escape_spec s @ [DQUOTE] else s)"
  by (simp add: QuoteAndEscapeIfNeeded_def EscapeQuotes_eq)

lemma unescape_spec_plain:
  "c \<noteq> BACKSLASH \<Longrightarrow> unescape_spec (c # cs) = c # unescape_spec cs"
  by (cases cs) simp_all

lemma unescape_escape: "unescape_spec (escape_spec v) = v"
proof (induction v)
  case Nil
  then show ?case by (simp add: escape_spec_def)
next
  case (Cons a v)
  have tail: "escape_spec (a # v) =
      (if a = DQUOTE \<or> a = BACKSLASH then [BACKSLASH, a] else [a]) @ escape_spec v"
    by (simp add: escape_spec_def)
  show ?case
  proof (cases "a = DQUOTE \<or> a = BACKSLASH")
    case True
    then show ?thesis using Cons.IH by (simp add: tail)
  next
    case False
    then show ?thesis using Cons.IH by (simp add: tail unescape_spec_plain)
  qed
qed

text \<open>
  C4: \<open>NeedsQuotes\<close> holds exactly of the empty text, of a text whose first or last
  character is whitespace, and of a text with one of the characters
  \<open>" \ { } ( ) ,\<close>; it holds of the empty text, of \<open>" a"\<close>, \<open>"a "\<close> and \<open>"a,b"\<close>, and not of
  \<open>"abc"\<close>.
\<close>

theorem NeedsQuotes_characterisation:
  "(NeedsQuotes s (length s) \<longleftrightarrow>
      s = [] \<or> isspace (hd s) \<or> isspace (last s)
      \<or> (\<exists>c \<in> set s. c \<in> {DQUOTE, BACKSLASH, CHR ''{'', CHR ''}'', CHR ''('', CHR '')'', CHR '',''}))
   \<and> NeedsQuotes [] 0
   \<and> NeedsQuotes '' a'' 2
   \<and> NeedsQuotes ''a '' 2
   \<and> \<not> NeedsQuotes ''abc'' 3
   \<and> NeedsQuotes ''a,b'' 3"
proof -
  have general: "NeedsQuotes s (length s) \<longleftrightarrow>
      s = [] \<or> isspace (hd s) \<or> isspace (last s)
      \<or> (\<exists>c \<in> set s. c \<in> {DQUOTE, BACKSLASH, CHR ''{'', CHR ''}'', CHR ''('', CHR '')'', CHR '',''})"
    unfolding NeedsQuotes_iff quote_chars_def by blast
  have e1: "NeedsQuotes [] 0"
    by (simp add: NeedsQuotes_def)
  have e2: "NeedsQuotes '' a'' 2"
    using NeedsQuotes_iff [of "'' a''"] by (simp add: isspace_def numeral_2_eq_2)
  have e3: "NeedsQuotes ''a '' 2"
    using NeedsQuotes_iff [of "''a ''"] by (simp add: isspace_def numeral_2_eq_2)
  have e4: "\<not> NeedsQuotes ''abc'' 3"
    using NeedsQuotes_iff [of "''abc''"] by (simp add: isspace_def quote_chars_def numeral_3_eq_3)
  have e5: "NeedsQuotes ''a,b'' 3"
    using NeedsQuotes_iff [of "''a,b''"] by (simp add: isspace_def quote_chars_def numeral_3_eq_3)
  from general e1 e2 e3 e4 e5 show ?thesis by blast
qed

text \<open>
  C3: \<open>QuoteAndEscapeIfNeeded\<close> appends the text unchanged when \<open>NeedsQuotes\<close> is false, and
  otherwise the text with every \<open>"\<close> and \<open>\\<close> prefixed by a backslash, between two double
  quotes (\<open>EscapeQuotes\<close> being that prefixing); parsing the output back (strip the outer
  quotes, undo the backslash prefixes) gives the text again.
\<close>

theorem QuoteAndEscapeIfNeeded_lossless:
  "QuoteAndEscapeIfNeeded v result (length v) =
      result @ (if NeedsQuotes v (length v) then [DQUOTE] @ escape_spec v @ [DQUOTE] else v)
   \<and> EscapeQuotes v result (length v) = result @ escape_spec v
   \<and> parse_spec (QuoteAndEscapeIfNeeded v [] (length v)) = v"
proof -
  have parse: "parse_spec (QuoteAndEscapeIfNeeded v [] (length v)) = v"
  proof (cases "NeedsQuotes v (length v)")
    case True
    then have "QuoteAndEscapeIfNeeded v [] (length v) = DQUOTE # escape_spec v @ [DQUOTE]"
      by (simp add: QuoteAndEscapeIfNeeded_eq)
    then show ?thesis
      by (simp add: parse_spec_def butlast_append unescape_escape)
  next
    case False
    then have plain: "QuoteAndEscapeIfNeeded v [] (length v) = v"
      by (simp add: QuoteAndEscapeIfNeeded_eq)
    from False have "v \<noteq> []" "set v \<inter> quote_chars = {}"
      by (simp_all add: NeedsQuotes_iff)
    then have "hd v \<noteq> DQUOTE"
      by (cases v) (auto simp: quote_chars_def)
    then show ?thesis
      by (simp add: plain parse_spec_def)
  qed
  show ?thesis
    using parse QuoteAndEscapeIfNeeded_eq [of v result] EscapeQuotes_eq [of v result] by simp
qed

section \<open>Properties of the casts\<close>

lemma for_loop_fold: "for_loop i n body s = fold body [i..<n] s"
proof (induction i n body s rule: for_loop.induct)
  case (1 i n body s)
  show ?case
  proof (cases "i < n")
    case True
    then show ?thesis
      using "1.IH" by (subst for_loop.simps) (simp add: upt_conv_Cons)
  next
    case False
    then show ?thesis by (subst for_loop.simps) simp
  qed
qed

lemma fold_append_segments:
  "(\<And>c acc. body c acc = acc @ seg c) \<Longrightarrow> fold body cs acc = acc @ concat (map seg cs)"
  by (induction cs arbitrary: acc) simp_all

lemma for_loop_append:
  "(\<And>c acc. body c acc = acc @ seg c) \<Longrightarrow>
   for_loop i n body acc = acc @ concat (map seg [i..<n])"
  by (simp add: for_loop_fold fold_append_segments)

lemma join_spec_snoc:
  "join_spec sep (xs @ [x]) = (if xs = [] then x else join_spec sep xs @ sep @ x)"
  by (induction sep xs rule: join_spec.induct) simp_all

lemma concat_separated:
  "concat (map (\<lambda>i. (if i > 0 then sep else []) @ f i) [0..<n]) = join_spec sep (map f [0..<n])"
proof (induction n)
  case 0
  then show ?case by simp
next
  case (Suc n)
  have "join_spec sep (map f [0..<Suc n]) =
      (if n = 0 then f n else join_spec sep (map f [0..<n]) @ sep @ f n)"
    by (simp add: join_spec_snoc)
  then show ?case using Suc by simp
qed

lemma only_at: "\<not> Suc i \<le> x \<Longrightarrow> i \<le> x \<Longrightarrow> x = (i::nat)"
  by arith

lemma rows_loop_closed:
  "for_loop i n
     (\<lambda>r v. if null r then FlatVector_SetNull v r True else set_entry v r (text r)) v0 =
   \<lparr>validity = (\<lambda>r. if i \<le> r \<and> r < n \<and> null r then False else validity v0 r),
    string_data = (\<lambda>r. if i \<le> r \<and> r < n \<and> \<not> null r then text r else string_data v0 r)\<rparr>"
proof (induction "n - i" arbitrary: i v0)
  case 0
  then show ?case
    by (subst for_loop.simps) (auto intro!: flat_string_vector.equality simp: fun_eq_iff)
next
  case (Suc k)
  then have lt: "i < n" and k: "k = n - Suc i" by simp_all
  show ?case
    using lt
    by (subst for_loop.simps)
       (auto simp: Suc.hyps(1) [OF k] FlatVector_SetNull_def set_entry_def fun_eq_iff
             intro!: flat_string_vector.equality dest: only_at)
qed

lemma HEX_STRING_digits: "map hex_digit_spec [0..<16] = HEX_STRING"
  by (simp add: upt_rec HEX_STRING_def hex_digit_spec_def char_of_eq_iff)

lemma HEX_STRING_nth: "n < 16 \<Longrightarrow> hex_digit_spec n = HEX_STRING ! n"
proof -
  assume n: "n < 16"
  then have "map hex_digit_spec [0..<16] ! n = hex_digit_spec n"
    by (simp only: nth_map length_upt nth_upt) simp
  then show ?thesis
    by (simp only: HEX_STRING_digits)
qed

lemma blob_byte_eq: "blob_byte b c acc = acc @ hex_pair_spec (b ! c)"
proof -
  have "(of_char (b ! c) :: nat) < 16 * 16" by simp
  then have "(of_char (b ! c) :: nat) div 16 < 16"
    by (simp only: less_mult_imp_div_less)
  moreover have "(of_char (b ! c) :: nat) mod 16 < 16" by simp
  ultimately show ?thesis
    by (simp add: blob_byte_def hex_pair_spec_def HEX_STRING_nth)
qed

lemma blob_loop_eq:
  "for_loop 0 (length b) (blob_byte b) acc = acc @ concat (map hex_pair_spec b)"
proof -
  have "for_loop 0 (length b) (blob_byte b) acc =
      acc @ concat (map (\<lambda>c. hex_pair_spec (b ! c)) [0..<length b])"
    by (rule for_loop_append) (rule blob_byte_eq)
  also have "map (\<lambda>c. hex_pair_spec (b ! c)) [0..<length b] = map hex_pair_spec b"
    by (rule nth_equalityI) simp_all
  finally show ?thesis .
qed

lemma CastBlobToPostgres_closed:
  "CastBlobToPostgres input result sz =
   \<lparr>validity = (\<lambda>r. if r < sz \<and> \<not> validity input r then False else validity result r),
    string_data = (\<lambda>r. if r < sz \<and> validity input r
                        then [BACKSLASH, CHR ''x''] @ concat (map hex_pair_spec (string_data input r))
                        else string_data result r)\<rparr>"
  unfolding CastBlobToPostgres_def Let_def blob_loop_eq FlatVector_IsNull_def
  by (simp add: rows_loop_closed)

lemma list_element_eq:
  "list_element cv skip e idx result =
     result @ (if idx > 0 then '','' else []) @ array_element_spec cv skip (list_offset e + idx)"
  by (simp add: list_element_def array_element_spec_def FlatVector_IsNull_def Let_def
      QuoteAndEscapeIfNeeded_eq)

lemma list_loop_eq:
  "for_loop 0 len (list_element cv skip e) acc =
     acc @ join_spec '','' (map (array_element_spec cv skip) [list_offset e..<list_offset e + len])"
proof -
  have "for_loop 0 len (list_element cv skip e) acc =
      acc @ concat (map (\<lambda>idx. (if idx > 0 then '','' else []) @
                                 array_element_spec cv skip (list_offset e + idx)) [0..<len])"
    by (rule for_loop_append) (rule list_element_eq)
  also have "\<dots> = acc @ join_spec '','' (map (\<lambda>idx. array_element_spec cv skip (list_offset e + idx)) [0..<len])"
    by (simp only: concat_separated)
  also have "map (\<lambda>idx. array_element_spec cv skip (list_offset e + idx)) [0..<len] =
      map (array_element_spec cv skip) (map (\<lambda>idx. idx + list_offset e) [0..<len])"
    by (simp add: add.commute)
  also have "map (\<lambda>idx. idx + list_offset e) [0..<len] = [list_offset e..<list_offset e + len]"
    by (simp add: map_add_upt add.commute)
  finally show ?thesis .
qed

lemma CastListToPostgresArray_closed:
  "CastListToPostgresArray VC (ListVector m entries child child_count) vv sz =
   \<lparr>validity = (\<lambda>r. if r < sz \<and> \<not> m r then False else validity vv r),
    string_data = (\<lambda>r. if r < sz \<and> m r
       then ''{'' @ join_spec '',''
              (map (array_element_spec
                      (CastToPostgresVarchar VC child (Vector_VARCHAR child_count) child_count)
                      (GetType_id child = LIST))
                 [list_offset (entries r)..<list_offset (entries r) + list_length (entries r)]) @ ''}''
       else string_data vv r)\<rparr>"
  unfolding CastListToPostgresArray.simps Let_def list_loop_eq
  by (simp add: rows_loop_closed [where null = "\<lambda>r. \<not> m r"] cong: if_cong)

lemma struct_field_eq:
  "struct_field cvs r c result =
     result @ (if c > 0 then '','' else []) @ composite_field_spec (cvs ! c) r"
  by (simp add: struct_field_def composite_field_spec_def FlatVector_IsNull_def Let_def
      QuoteAndEscapeIfNeeded_eq)

lemma struct_loop_eq:
  "for_loop 0 (length cvs) (struct_field cvs r) acc =
     acc @ join_spec '','' (map (\<lambda>f. composite_field_spec f r) cvs)"
proof -
  have "for_loop 0 (length cvs) (struct_field cvs r) acc =
      acc @ concat (map (\<lambda>c. (if c > 0 then '','' else []) @ composite_field_spec (cvs ! c) r)
                      [0..<length cvs])"
    by (rule for_loop_append) (rule struct_field_eq)
  also have "\<dots> = acc @ join_spec '','' (map (\<lambda>c. composite_field_spec (cvs ! c) r) [0..<length cvs])"
    by (simp only: concat_separated)
  also have "map (\<lambda>c. composite_field_spec (cvs ! c) r) [0..<length cvs] =
      map (\<lambda>f. composite_field_spec f r) cvs"
    by (rule nth_equalityI) simp_all
  finally show ?thesis .
qed

lemma CastStructToPostgres_closed:
  "CastStructToPostgres VC (StructVector m child_vectors) vv sz =
   \<lparr>validity = (\<lambda>r. if r < sz \<and> \<not> m r then False else validity vv r),
    string_data = (\<lambda>r. if r < sz \<and> m r
       then ''('' @ join_spec '',''
              (map (\<lambda>f. composite_field_spec f r)
                 (map (\<lambda>child. CastToPostgresVarchar VC child (Vector_VARCHAR sz) sz) child_vectors))
            @ '')''
       else string_data vv r)\<rparr>"
proof -
  define cvs where
    "cvs = map (\<lambda>child. CastToPostgresVarchar VC child (Vector_VARCHAR sz) sz) child_vectors"
  have "CastStructToPostgres VC (StructVector m child_vectors) vv sz =
      for_loop 0 sz
        (\<lambda>r v. if \<not> m r then FlatVector_SetNull v r True
               else set_entry v r (for_loop 0 (length cvs) (struct_field cvs r) ''('' @ '')''))
        vv"
    unfolding cvs_def CastStructToPostgres.simps Let_def ..
  also have "\<dots> =
      \<lparr>validity = (\<lambda>r. if r < sz \<and> \<not> m r then False else validity vv r),
       string_data = (\<lambda>r. if r < sz \<and> m r
          then ''('' @ join_spec '','' (map (\<lambda>f. composite_field_spec f r) cvs) @ '')''
          else string_data vv r)\<rparr>"
    unfolding struct_loop_eq
    by (simp add: rows_loop_closed [where null = "\<lambda>r. \<not> m r"] cong: if_cong)
  finally show ?thesis
    unfolding cvs_def .
qed

text \<open>
  C5: for every row \<open>r\<close> below \<open>size\<close>, \<open>CastBlobToPostgres\<close> makes the output row null when
  the blob is null (and leaves the validity of the output row as it was otherwise: every
  result vector of this file is new or reset, all rows valid), and writes for a non-null
  blob exactly \<open>\x\<close> followed by one uppercase two-digit hexadecimal pair per byte, in
  order, with no quoting or escaping; the bytes \<open>0x0A, 0xFF\<close> give \<open>\x0AFF\<close>.
\<close>

theorem CastBlobToPostgres_rows:
  assumes "r < sz"
  shows "validity (CastBlobToPostgres input result sz) r = (validity input r \<and> validity result r)
   \<and> string_data (CastBlobToPostgres input result sz) r =
       (if validity input r
        then [BACKSLASH, CHR ''x''] @ concat (map hex_pair_spec (string_data input r))
        else string_data result r)
   \<and> has_rows
        (CastBlobToPostgres \<lparr>validity = (\<lambda>r. True), string_data = (\<lambda>r. [CHR 0x0A, CHR 0xFF])\<rparr>
           (Vector_VARCHAR 1) 1)
        0 [Some [BACKSLASH, CHR ''x'', CHR ''0'', CHR ''A'', CHR ''F'', CHR ''F'']]"
proof -
  have general: "validity (CastBlobToPostgres input result sz) r = (validity input r \<and> validity result r)"
    "string_data (CastBlobToPostgres input result sz) r =
       (if validity input r
        then [BACKSLASH, CHR ''x''] @ concat (map hex_pair_spec (string_data input r))
        else string_data result r)"
    using assms by (auto simp: CastBlobToPostgres_closed)
  have example: "has_rows
        (CastBlobToPostgres \<lparr>validity = (\<lambda>r. True), string_data = (\<lambda>r. [CHR 0x0A, CHR 0xFF])\<rparr>
           (Vector_VARCHAR 1) 1)
        0 [Some [BACKSLASH, CHR ''x'', CHR ''0'', CHR ''A'', CHR ''F'', CHR ''F'']]"
    by (simp add: CastBlobToPostgres_closed Vector_VARCHAR_def hex_pair_spec_def hex_digit_spec_def
        char_of_eq_iff)
  from general example show ?thesis by simp
qed

theorem CastBlobToPostgres_rows_witness:
  "(1::nat) < 2
   \<and> \<not> validity (CastBlobToPostgres \<lparr>validity = (\<lambda>r. r \<noteq> 0), string_data = (\<lambda>r. ''ab'')\<rparr>
           (Vector_VARCHAR 2) 2) 0
   \<and> string_data (CastBlobToPostgres \<lparr>validity = (\<lambda>r. r \<noteq> 0), string_data = (\<lambda>r. ''ab'')\<rparr>
           (Vector_VARCHAR 2) 2) 1 = [BACKSLASH, CHR ''x'', CHR ''6'', CHR ''1'', CHR ''6'', CHR ''2'']"
  using CastBlobToPostgres_rows [of 0 2 "\<lparr>validity = (\<lambda>r. r \<noteq> 0), string_data = (\<lambda>r. ''ab'')\<rparr>" "Vector_VARCHAR 2"]
    CastBlobToPostgres_rows [of 1 2 "\<lparr>validity = (\<lambda>r. r \<noteq> 0), string_data = (\<lambda>r. ''ab'')\<rparr>" "Vector_VARCHAR 2"]
  by (simp add: hex_pair_spec_def hex_digit_spec_def char_of_eq_iff)

text \<open>
  C1: for every row \<open>r\<close> below \<open>size\<close>, \<open>CastListToPostgresArray\<close> makes the output row null
  when the list is null (and leaves the validity of the output row as it was otherwise),
  and writes for a non-null list the one string \<open>{\<close>, the elements joined by \<open>,\<close>, \<open>}\<close>. The
  elements are the rows \<open>offset\<close> to \<open>offset + length - 1\<close> of the child, cast once for the whole
  child buffer: \<open>NULL\<close> for a null child row, the child literal as it is when the child is
  itself a list, the child text through \<open>QuoteAndEscapeIfNeeded\<close> otherwise. An empty list
  gives \<open>{}\<close>. When the engine's cast renders a child column as \<open>1\<close>, null, \<open>3\<close> the list of
  its three rows is \<open>{1,NULL,3}\<close>; when it renders one as \<open>a,b\<close>, null the list is
  \<open>{"a,b",NULL}\<close>.
\<close>

theorem CastListToPostgresArray_rows:
  fixes VectorOperations_Cast :: "'p \<Rightarrow> flat_string_vector \<Rightarrow> nat \<Rightarrow> flat_string_vector"
    and child :: "'p Vector" and child_count sz :: nat and m :: "nat \<Rightarrow> bool"
    and entries :: "nat \<Rightarrow> list_entry_t" and vv :: flat_string_vector
  defines "child_text \<equiv>
    CastToPostgresVarchar VectorOperations_Cast child (Vector_VARCHAR child_count) child_count"
  defines "out \<equiv>
    CastListToPostgresArray VectorOperations_Cast (ListVector m entries child child_count) vv sz"
  assumes "r < sz"
  shows "validity out r = (m r \<and> validity vv r)
   \<and> string_data out r =
       (if m r
        then ''{'' @ join_spec '',''
               (map (array_element_spec child_text (GetType_id child = LIST))
                  [list_offset (entries r)..<list_offset (entries r) + list_length (entries r)])
             @ ''}''
        else string_data vv r)
   \<and> (m r \<and> list_length (entries r) = 0 \<longrightarrow> string_data out r = ''{}'')
   \<and> (has_rows (VectorOperations_Cast p (Vector_VARCHAR 3) 3) 0 [Some ''1'', None, Some ''3'']
        \<longrightarrow> has_rows
              (CastListToPostgresArray VectorOperations_Cast
                 (ListVector (\<lambda>r. True) (\<lambda>r. \<lparr>list_offset = 0, list_length = 3\<rparr>) (OtherVector p) 3)
                 (Vector_VARCHAR 1) 1)
              0 [Some ''{1,NULL,3}''])
   \<and> (has_rows (VectorOperations_Cast q (Vector_VARCHAR 2) 2) 0 [Some ''a,b'', None]
        \<longrightarrow> has_rows
              (CastListToPostgresArray VectorOperations_Cast
                 (ListVector (\<lambda>r. True) (\<lambda>r. \<lparr>list_offset = 0, list_length = 2\<rparr>) (OtherVector q) 2)
                 (Vector_VARCHAR 1) 1)
              0 [Some ([CHR ''{'', DQUOTE] @ ''a,b'' @ [DQUOTE] @ '',NULL}'')])"
proof -
  have v: "validity out r = (m r \<and> validity vv r)"
    using assms(3) by (auto simp: out_def CastListToPostgresArray_closed)
  have d: "string_data out r =
       (if m r
        then ''{'' @ join_spec '',''
               (map (array_element_spec child_text (GetType_id child = LIST))
                  [list_offset (entries r)..<list_offset (entries r) + list_length (entries r)])
             @ ''}''
        else string_data vv r)"
    using assms(3) by (simp add: out_def child_text_def CastListToPostgresArray_closed)
  have e: "m r \<and> list_length (entries r) = 0 \<longrightarrow> string_data out r = ''{}''"
    using d by simp
  have upt3: "[0..<3] = [0, Suc 0, Suc (Suc 0)]" and upt2: "[0..<2] = [0, Suc 0]"
    by (simp_all add: upt_rec)
  have nq1: "\<not> NeedsQuotes ''1'' (Suc 0)" "\<not> NeedsQuotes ''3'' (Suc 0)"
    using NeedsQuotes_iff [of "''1''"] NeedsQuotes_iff [of "''3''"]
    by (simp_all add: isspace_def quote_chars_def)
  have nq2: "NeedsQuotes ''a,b'' (Suc (Suc (Suc 0)))"
    using NeedsQuotes_iff [of "''a,b''"] by (simp add: quote_chars_def)
  have x1: "has_rows (VectorOperations_Cast p (Vector_VARCHAR 3) 3) 0 [Some ''1'', None, Some ''3'']
        \<longrightarrow> has_rows
              (CastListToPostgresArray VectorOperations_Cast
                 (ListVector (\<lambda>r. True) (\<lambda>r. \<lparr>list_offset = 0, list_length = 3\<rparr>) (OtherVector p) 3)
                 (Vector_VARCHAR 1) 1)
              0 [Some ''{1,NULL,3}'']"
    using nq1 QuoteAndEscapeIfNeeded_eq [of "''1''" "[]"] QuoteAndEscapeIfNeeded_eq [of "''3''" "[]"]
    by (simp add: CastListToPostgresArray_closed Vector_VARCHAR_def upt3 array_element_spec_def)
  have x2: "has_rows (VectorOperations_Cast q (Vector_VARCHAR 2) 2) 0 [Some ''a,b'', None]
        \<longrightarrow> has_rows
              (CastListToPostgresArray VectorOperations_Cast
                 (ListVector (\<lambda>r. True) (\<lambda>r. \<lparr>list_offset = 0, list_length = 2\<rparr>) (OtherVector q) 2)
                 (Vector_VARCHAR 1) 1)
              0 [Some ([CHR ''{'', DQUOTE] @ ''a,b'' @ [DQUOTE] @ '',NULL}'')]"
    using nq2 QuoteAndEscapeIfNeeded_eq [of "''a,b''" "[]"]
    by (simp add: CastListToPostgresArray_closed Vector_VARCHAR_def upt2 array_element_spec_def
        escape_spec_def)
  from v d e x1 x2 show ?thesis by blast
qed


theorem CastListToPostgresArray_rows_witness:
  "(0::nat) < 1
   \<and> has_rows \<lparr>validity = (\<lambda>r. r \<noteq> Suc 0), string_data = (\<lambda>r. if r = 0 then ''1'' else ''3'')\<rparr>
        0 [Some ''1'', None, Some ''3'']
   \<and> has_rows
        (CastListToPostgresArray (\<lambda>p result sz. p)
           (ListVector (\<lambda>r. True) (\<lambda>r. \<lparr>list_offset = 0, list_length = 3\<rparr>)
              (OtherVector \<lparr>validity = (\<lambda>r. r \<noteq> Suc 0),
                            string_data = (\<lambda>r. if r = 0 then ''1'' else ''3'')\<rparr>) 3)
           (Vector_VARCHAR 1) 1)
        0 [Some ''{1,NULL,3}'']
   \<and> has_rows \<lparr>validity = (\<lambda>r. r = 0), string_data = (\<lambda>r. ''a,b'')\<rparr> 0 [Some ''a,b'', None]
   \<and> has_rows
        (CastListToPostgresArray (\<lambda>p result sz. p)
           (ListVector (\<lambda>r. True) (\<lambda>r. \<lparr>list_offset = 0, list_length = 2\<rparr>)
              (OtherVector \<lparr>validity = (\<lambda>r. r = 0), string_data = (\<lambda>r. ''a,b'')\<rparr>) 2)
           (Vector_VARCHAR 1) 1)
        0 [Some ([CHR ''{'', DQUOTE] @ ''a,b'' @ [DQUOTE] @ '',NULL}'')]
   \<and> string_data
        (CastListToPostgresArray (\<lambda>p result sz. p)
           (ListVector (\<lambda>r. True) (\<lambda>r. \<lparr>list_offset = 1, list_length = 0\<rparr>)
              (OtherVector \<lparr>validity = (\<lambda>r. r = 0), string_data = (\<lambda>r. ''a,b'')\<rparr>) 2)
           (Vector_VARCHAR 1) 1)
        0 = ''{}''"
  using CastListToPostgresArray_rows
    [where r = 0 and sz = 1 and VectorOperations_Cast = "\<lambda>p result sz. p"
       and m = "\<lambda>r. True" and entries = "\<lambda>r. \<lparr>list_offset = 1, list_length = 0\<rparr>"
       and child = "OtherVector \<lparr>validity = (\<lambda>r. r = 0), string_data = (\<lambda>r. ''a,b'')\<rparr>"
       and child_count = 2 and vv = "Vector_VARCHAR 1"
       and p = "\<lparr>validity = (\<lambda>r. r \<noteq> Suc 0), string_data = (\<lambda>r. if r = 0 then ''1'' else ''3'')\<rparr>"
       and q = "\<lparr>validity = (\<lambda>r. r = 0), string_data = (\<lambda>r. ''a,b'')\<rparr>"]
  by simp

text \<open>
  C2: for every row \<open>r\<close> below \<open>size\<close>, \<open>CastStructToPostgres\<close> makes the output row null when
  the struct is null (and leaves the validity of the output row as it was otherwise), and
  writes for a non-null struct the one string \<open>(\<close>, the fields joined by \<open>,\<close>, \<open>)\<close>, where a
  null field is the empty segment and every other field is its cast text through
  \<open>QuoteAndEscapeIfNeeded\<close>. When the engine's cast renders the two fields of a row as \<open>1\<close>
  and null, the struct is \<open>(1,)\<close>.
\<close>

theorem CastStructToPostgres_rows:
  fixes VectorOperations_Cast :: "'p \<Rightarrow> flat_string_vector \<Rightarrow> nat \<Rightarrow> flat_string_vector"
    and child_vectors :: "'p Vector list" and sz :: nat and m :: "nat \<Rightarrow> bool"
    and vv :: flat_string_vector
  defines "field_texts \<equiv>
    map (\<lambda>child. CastToPostgresVarchar VectorOperations_Cast child (Vector_VARCHAR sz) sz)
      child_vectors"
  defines "out \<equiv> CastStructToPostgres VectorOperations_Cast (StructVector m child_vectors) vv sz"
  assumes "r < sz"
  shows "validity out r = (m r \<and> validity vv r)
   \<and> string_data out r =
       (if m r
        then ''('' @ join_spec '','' (map (\<lambda>f. composite_field_spec f r) field_texts) @ '')''
        else string_data vv r)
   \<and> (has_rows (VectorOperations_Cast x (Vector_VARCHAR 1) 1) 0 [Some ''1'']
        \<and> has_rows (VectorOperations_Cast y (Vector_VARCHAR 1) 1) 0 [None]
        \<longrightarrow> has_rows
              (CastStructToPostgres VectorOperations_Cast
                 (StructVector (\<lambda>r. True) [OtherVector x, OtherVector y]) (Vector_VARCHAR 1) 1)
              0 [Some ''(1,)''])"
proof -
  have v: "validity out r = (m r \<and> validity vv r)"
    using assms(3) by (auto simp: out_def CastStructToPostgres_closed)
  have d: "string_data out r =
       (if m r
        then ''('' @ join_spec '','' (map (\<lambda>f. composite_field_spec f r) field_texts) @ '')''
        else string_data vv r)"
    using assms(3) by (simp add: out_def field_texts_def CastStructToPostgres_closed)
  have nq1: "\<not> NeedsQuotes ''1'' (Suc 0)"
    using NeedsQuotes_iff [of "''1''"] by (simp add: isspace_def quote_chars_def)
  have x: "has_rows (VectorOperations_Cast x (Vector_VARCHAR 1) 1) 0 [Some ''1'']
        \<and> has_rows (VectorOperations_Cast y (Vector_VARCHAR 1) 1) 0 [None]
        \<longrightarrow> has_rows
              (CastStructToPostgres VectorOperations_Cast
                 (StructVector (\<lambda>r. True) [OtherVector x, OtherVector y]) (Vector_VARCHAR 1) 1)
              0 [Some ''(1,)'']"
    using nq1 QuoteAndEscapeIfNeeded_eq [of "''1''" "[]"]
    by (simp add: CastStructToPostgres_closed Vector_VARCHAR_def composite_field_spec_def)
  from v d x show ?thesis by blast
qed

theorem CastStructToPostgres_rows_witness:
  "(0::nat) < 1
   \<and> has_rows \<lparr>validity = (\<lambda>r. True), string_data = (\<lambda>r. ''1'')\<rparr> 0 [Some ''1'']
   \<and> has_rows \<lparr>validity = (\<lambda>r. False), string_data = (\<lambda>r. [])\<rparr> 0 [None]
   \<and> has_rows
        (CastStructToPostgres (\<lambda>p result sz. p)
           (StructVector (\<lambda>r. True)
              [OtherVector \<lparr>validity = (\<lambda>r. True), string_data = (\<lambda>r. ''1'')\<rparr>,
               OtherVector \<lparr>validity = (\<lambda>r. False), string_data = (\<lambda>r. [])\<rparr>])
           (Vector_VARCHAR 1) 1)
        0 [Some ''(1,)'']"
  using CastStructToPostgres_rows
    [where r = 0 and sz = 1 and VectorOperations_Cast = "\<lambda>p result sz. p"
       and m = "\<lambda>r. True" and child_vectors = "[]" and vv = "Vector_VARCHAR 1"
       and x = "\<lparr>validity = (\<lambda>r. True), string_data = (\<lambda>r. ''1'')\<rparr>"
       and y = "\<lparr>validity = (\<lambda>r. False), string_data = (\<lambda>r. [])\<rparr>"]
  by simp

lemma length_join_spec:
  "length (join_spec sep xs) = sum_list (map length xs) + (length xs - 1) * length sep"
  by (induction sep xs rule: join_spec.induct) simp_all

lemma QuoteAndEscapeIfNeeded_nonempty: "QuoteAndEscapeIfNeeded t [] (length t) \<noteq> []"
  by (simp add: QuoteAndEscapeIfNeeded_eq NeedsQuotes_iff)

lemma join_spec_one_longer:
  assumes len: "length xs = length ys" and c: "c < length xs"
    and same: "\<And>k. k < length xs \<Longrightarrow> k \<noteq> c \<Longrightarrow> xs ! k = ys ! k"
    and empty: "xs ! c = []" and nonempty: "ys ! c \<noteq> []"
  shows "length (join_spec sep xs) < length (join_spec sep ys)"
proof -
  have ys: "ys = xs[c := ys ! c]"
  proof (rule nth_equalityI)
    show "length ys = length (xs[c := ys ! c])" using len by simp
    show "ys ! i = xs[c := ys ! c] ! i" if "i < length ys" for i
      using that len same [of i] by (cases "i = c") simp_all
  qed
  have "sum_list (map length ys) = sum_list ((map length xs)[c := length (ys ! c)])"
    by (subst ys) (simp add: map_update)
  also have "\<dots> = sum_list (map length xs) + length (ys ! c) - length (xs ! c)"
    using c by (simp add: sum_list_update)
  finally have "sum_list (map length xs) < sum_list (map length ys)"
    using empty nonempty by simp
  then show ?thesis
    using len by (simp add: length_join_spec)
qed

text \<open>
  C10: the field loop of \<open>CastStructToPostgres\<close> appends nothing for a null field and the
  two characters \<open>""\<close> for a non-null field whose text is empty (no field that is not null
  has an empty segment). So two struct rows that differ in one field only, null in the one
  and a non-null empty string in the other, are cast to different literals.
\<close>

theorem struct_null_field_distinguishable:
  fixes VectorOperations_Cast :: "'p \<Rightarrow> flat_string_vector \<Rightarrow> nat \<Rightarrow> flat_string_vector"
    and sz :: nat
  defines "cast \<equiv> \<lambda>child. CastToPostgresVarchar VectorOperations_Cast child (Vector_VARCHAR sz) sz"
  shows "struct_field cvs r c result =
       result @ (if c > 0 then '','' else [])
         @ (if FlatVector_IsNull (cvs ! c) r then []
            else if string_data (cvs ! c) r = [] then [DQUOTE, DQUOTE]
            else QuoteAndEscapeIfNeeded (string_data (cvs ! c) r) []
                   (length (string_data (cvs ! c) r)))
   \<and> QuoteAndEscapeIfNeeded t [] (length t) \<noteq> []
   \<and> (r < sz \<and> m r \<and> m' r \<and> length cs = length cs' \<and> k < length cs
        \<and> (\<forall>j < length cs. j \<noteq> k \<longrightarrow>
              composite_field_spec (cast (cs ! j)) r = composite_field_spec (cast (cs' ! j)) r)
        \<and> \<not> validity (cast (cs ! k)) r
        \<and> validity (cast (cs' ! k)) r \<and> string_data (cast (cs' ! k)) r = []
        \<longrightarrow> string_data (CastStructToPostgres VectorOperations_Cast (StructVector m cs) vv sz) r
              \<noteq> string_data (CastStructToPostgres VectorOperations_Cast (StructVector m' cs') vv' sz) r)"
proof -
  have emp: "QuoteAndEscapeIfNeeded [] [] 0 = [DQUOTE, DQUOTE]"
    using QuoteAndEscapeIfNeeded_eq [of "[]" "[]"] NeedsQuotes_iff [of "[]"]
    by (simp add: escape_spec_def)
  have a: "struct_field cvs r c result =
       result @ (if c > 0 then '','' else [])
         @ (if FlatVector_IsNull (cvs ! c) r then []
            else if string_data (cvs ! c) r = [] then [DQUOTE, DQUOTE]
            else QuoteAndEscapeIfNeeded (string_data (cvs ! c) r) []
                   (length (string_data (cvs ! c) r)))"
    using emp by (simp add: struct_field_eq composite_field_spec_def FlatVector_IsNull_def)
  have b: "string_data (CastStructToPostgres VectorOperations_Cast (StructVector m cs) vv sz) r
        \<noteq> string_data (CastStructToPostgres VectorOperations_Cast (StructVector m' cs') vv' sz) r"
    if h: "r < sz" "m r" "m' r" "length cs = length cs'" "k < length cs"
      "\<forall>j < length cs. j \<noteq> k \<longrightarrow>
          composite_field_spec (cast (cs ! j)) r = composite_field_spec (cast (cs' ! j)) r"
      "\<not> validity (cast (cs ! k)) r"
      "validity (cast (cs' ! k)) r" "string_data (cast (cs' ! k)) r = []"
  proof -
    let ?xs = "map (\<lambda>f. composite_field_spec f r) (map cast cs)"
    let ?ys = "map (\<lambda>f. composite_field_spec f r) (map cast cs')"
    have "length (join_spec '','' ?xs) < length (join_spec '','' ?ys)"
    proof (rule join_spec_one_longer [where c = k])
      show "length ?xs = length ?ys" using h(4) by simp
      show "k < length ?xs" using h(5) by simp
      show "?xs ! k = []" using h(5,7) by (simp add: composite_field_spec_def)
      show "?ys ! k \<noteq> []"
        using h(4,5,8) by (simp add: composite_field_spec_def QuoteAndEscapeIfNeeded_nonempty)
      show "?xs ! j = ?ys ! j" if "j < length ?xs" "j \<noteq> k" for j
        using that h(4,6) by simp
    qed
    then have "join_spec '','' ?xs \<noteq> join_spec '','' ?ys" by auto
    then show ?thesis
      using h(1,2,3) by (simp add: CastStructToPostgres_closed cast_def)
  qed
  from a b QuoteAndEscapeIfNeeded_nonempty [of t] show ?thesis by blast
qed

theorem struct_null_field_distinguishable_witness:
  "(0::nat) < 1
   \<and> string_data
        (CastStructToPostgres (\<lambda>p result sz. p)
           (StructVector (\<lambda>r. True) [OtherVector \<lparr>validity = (\<lambda>r. False), string_data = (\<lambda>r. [])\<rparr>])
           (Vector_VARCHAR 1) 1) 0
     \<noteq> string_data
        (CastStructToPostgres (\<lambda>p result sz. p)
           (StructVector (\<lambda>r. True) [OtherVector \<lparr>validity = (\<lambda>r. True), string_data = (\<lambda>r. [])\<rparr>])
           (Vector_VARCHAR 1) 1) 0"
  using struct_null_field_distinguishable
    [where r = 0 and sz = 1 and VectorOperations_Cast = "\<lambda>p result sz. p"
       and m = "\<lambda>r. True" and m' = "\<lambda>r. True" and k = 0
       and cs = "[OtherVector \<lparr>validity = (\<lambda>r. False), string_data = (\<lambda>r. [])\<rparr>]"
       and cs' = "[OtherVector \<lparr>validity = (\<lambda>r. True), string_data = (\<lambda>r. [])\<rparr>]"
       and vv = "Vector_VARCHAR 1" and vv' = "Vector_VARCHAR 1"]
  by simp

section \<open>Properties of the copy session\<close>

lemma CopyData_loop_retries:
  assumes zeros: "\<And>i. i < n \<Longrightarrow>
      PQputCopyData_answer pq (conn @ replicate i (PQputCopyData_call buffer (int_of_idx sz)))
        buffer (int_of_idx sz) = 0"
    and last: "PQputCopyData_answer pq (conn @ replicate n (PQputCopyData_call buffer (int_of_idx sz)))
        buffer (int_of_idx sz) \<noteq> 0"
  shows "CopyData_loop pq conn buffer sz =
     Some (PQputCopyData_answer pq (conn @ replicate n (PQputCopyData_call buffer (int_of_idx sz)))
             buffer (int_of_idx sz),
           conn @ replicate (Suc n) (PQputCopyData_call buffer (int_of_idx sz)))"
  using assms
proof (induction n arbitrary: conn)
  case 0
  then show ?case by (subst CopyData_loop.simps) simp
next
  case (Suc n)
  let ?call = "PQputCopyData_call buffer (int_of_idx sz)"
  have first: "PQputCopyData_answer pq conn buffer (int_of_idx sz) = 0"
    using Suc.prems(1) [of 0] by simp
  have shift: "(conn @ [?call]) @ replicate k ?call = conn @ replicate (Suc k) ?call" for k
    by (simp add: replicate_app_Cons_same)
  have "CopyData_loop pq (conn @ [?call]) buffer sz =
     Some (PQputCopyData_answer pq ((conn @ [?call]) @ replicate n ?call) buffer (int_of_idx sz),
           (conn @ [?call]) @ replicate (Suc n) ?call)"
  proof (rule Suc.IH)
    show "PQputCopyData_answer pq ((conn @ [?call]) @ replicate i ?call) buffer (int_of_idx sz) = 0"
      if "i < n" for i
      using Suc.prems(1) [of "Suc i"] that by simp
    show "PQputCopyData_answer pq ((conn @ [?call]) @ replicate n ?call) buffer (int_of_idx sz) \<noteq> 0"
      using Suc.prems(2) unfolding shift .
  qed
  then have rec: "CopyData_loop pq (conn @ [?call]) buffer sz =
     Some (PQputCopyData_answer pq (conn @ replicate (Suc n) ?call) buffer (int_of_idx sz),
           conn @ replicate (Suc (Suc n)) ?call)"
    unfolding shift .
  have "CopyData_loop pq conn buffer sz = CopyData_loop pq (conn @ [?call]) buffer sz"
    using first by (subst CopyData_loop.simps) simp
  with rec show ?case by simp
qed

lemma CopyData_loop_returns:
  assumes "CopyData_loop pq conn buffer sz = Some res"
  shows "\<exists>n. PQputCopyData_answer pq (conn @ replicate n (PQputCopyData_call buffer (int_of_idx sz)))
          buffer (int_of_idx sz) \<noteq> 0
     \<and> (\<forall>i < n. PQputCopyData_answer pq (conn @ replicate i (PQputCopyData_call buffer (int_of_idx sz)))
          buffer (int_of_idx sz) = 0)"
proof (rule CopyData_loop.raw_induct
    [where P = "\<lambda>pq conn buffer sz res.
       \<exists>n. PQputCopyData_answer pq (conn @ replicate n (PQputCopyData_call buffer (int_of_idx sz)))
              buffer (int_of_idx sz) \<noteq> 0
         \<and> (\<forall>i < n. PQputCopyData_answer pq
                (conn @ replicate i (PQputCopyData_call buffer (int_of_idx sz)))
              buffer (int_of_idx sz) = 0)", OF _ assms])
  fix loop :: "libpq \<Rightarrow> PGconn \<Rightarrow> string \<Rightarrow> nat \<Rightarrow> (int \<times> PGconn) option"
    and pq conn buffer sz res
  let ?call = "PQputCopyData_call buffer (int_of_idx sz)"
  assume IH: "\<And>pq conn buffer sz res. loop pq conn buffer sz = Some res \<Longrightarrow>
       \<exists>n. PQputCopyData_answer pq (conn @ replicate n (PQputCopyData_call buffer (int_of_idx sz)))
              buffer (int_of_idx sz) \<noteq> 0
         \<and> (\<forall>i < n. PQputCopyData_answer pq
                (conn @ replicate i (PQputCopyData_call buffer (int_of_idx sz)))
              buffer (int_of_idx sz) = 0)"
    and eq: "(if PQputCopyData_answer pq conn buffer (int_of_idx sz) = 0
          then loop pq (conn @ [?call]) buffer sz
          else Some (PQputCopyData_answer pq conn buffer (int_of_idx sz), conn @ [?call])) = Some res"
  show "\<exists>n. PQputCopyData_answer pq (conn @ replicate n ?call) buffer (int_of_idx sz) \<noteq> 0
     \<and> (\<forall>i < n. PQputCopyData_answer pq (conn @ replicate i ?call) buffer (int_of_idx sz) = 0)"
  proof (cases "PQputCopyData_answer pq conn buffer (int_of_idx sz) = 0")
    case False
    then show ?thesis by (intro exI [of _ 0]) simp
  next
    case True
    with eq have "loop pq (conn @ [?call]) buffer sz = Some res" by simp
    from IH [OF this] obtain n where
      n: "PQputCopyData_answer pq ((conn @ [?call]) @ replicate n ?call) buffer (int_of_idx sz) \<noteq> 0"
        "\<forall>i < n. PQputCopyData_answer pq ((conn @ [?call]) @ replicate i ?call) buffer (int_of_idx sz) = 0"
      by blast
    have shift: "(conn @ [?call]) @ replicate k ?call = conn @ replicate (Suc k) ?call" for k
      by (simp add: replicate_app_Cons_same)
    show ?thesis
    proof (intro exI [of _ "Suc n"] conjI allI impI)
      show "PQputCopyData_answer pq (conn @ replicate (Suc n) ?call) buffer (int_of_idx sz) \<noteq> 0"
        using n(1) unfolding shift .
      show "PQputCopyData_answer pq (conn @ replicate i ?call) buffer (int_of_idx sz) = 0"
        if "i < Suc n" for i
      proof (cases i)
        case 0
        then show ?thesis using True by simp
      next
        case (Suc j)
        then have "j < n" using that by simp
        with n(2) have "PQputCopyData_answer pq ((conn @ [?call]) @ replicate j ?call) buffer (int_of_idx sz) = 0"
          by blast
        then show ?thesis unfolding shift Suc .
      qed
    qed
  qed
qed


lemma CopyData_loop_None:
  assumes "\<And>n. PQputCopyData_answer pq (conn @ replicate n (PQputCopyData_call buffer (int_of_idx sz)))
      buffer (int_of_idx sz) = 0"
  shows "CopyData_loop pq conn buffer sz = None"
proof (cases "CopyData_loop pq conn buffer sz")
  case None
  then show ?thesis .
next
  case (Some res)
  from CopyData_loop_returns [OF this] assms show ?thesis by blast
qed

lemma CopyData_returns:
  assumes zeros: "\<And>i. i < n \<Longrightarrow>
      PQputCopyData_answer pq (conn @ replicate i (PQputCopyData_call buffer (int_of_idx sz)))
        buffer (int_of_idx sz) = 0"
    and last: "PQputCopyData_answer pq (conn @ replicate n (PQputCopyData_call buffer (int_of_idx sz)))
        buffer (int_of_idx sz) \<noteq> 0"
  shows "CopyData pq conn buffer sz =
     Some (if PQputCopyData_answer pq (conn @ replicate n (PQputCopyData_call buffer (int_of_idx sz)))
                buffer (int_of_idx sz) = - 1
           then Inl (InternalException (''Error during PQputCopyData: ''
                  @ PQerrorMessage pq (conn @ replicate (Suc n) (PQputCopyData_call buffer (int_of_idx sz)))))
           else Inr (),
           conn @ replicate (Suc n) (PQputCopyData_call buffer (int_of_idx sz)))"
proof -
  have "CopyData_loop pq conn buffer sz =
     Some (PQputCopyData_answer pq (conn @ replicate n (PQputCopyData_call buffer (int_of_idx sz)))
             buffer (int_of_idx sz),
           conn @ replicate (Suc n) (PQputCopyData_call buffer (int_of_idx sz)))"
    using zeros last by (rule CopyData_loop_retries)
  then show ?thesis
    by (simp add: CopyData_def)
qed

lemma CopyData_None:
  assumes "\<And>n. PQputCopyData_answer pq (conn @ replicate n (PQputCopyData_call buffer (int_of_idx sz)))
      buffer (int_of_idx sz) = 0"
  shows "CopyData pq conn buffer sz = None"
proof -
  have "CopyData_loop pq conn buffer sz = None"
    using assms by (rule CopyData_loop_None)
  then show ?thesis
    by (simp add: CopyData_def)
qed

lemma CopyData_Some:
  assumes "CopyData pq conn buffer sz = Some (out, conn')"
  shows "\<exists>n. (\<forall>i < n. PQputCopyData_answer pq
               (conn @ replicate i (PQputCopyData_call buffer (int_of_idx sz))) buffer (int_of_idx sz) = 0)
     \<and> PQputCopyData_answer pq (conn @ replicate n (PQputCopyData_call buffer (int_of_idx sz)))
          buffer (int_of_idx sz) \<noteq> 0
     \<and> conn' = conn @ replicate (Suc n) (PQputCopyData_call buffer (int_of_idx sz))
     \<and> (isl out \<longleftrightarrow>
          PQputCopyData_answer pq (conn @ replicate n (PQputCopyData_call buffer (int_of_idx sz)))
            buffer (int_of_idx sz) = - 1)"
proof -
  from assms obtain res where res: "CopyData_loop pq conn buffer sz = Some res"
    by (auto simp: CopyData_def split: option.splits)
  from CopyData_loop_returns [OF res] obtain n where
    n: "PQputCopyData_answer pq (conn @ replicate n (PQputCopyData_call buffer (int_of_idx sz)))
          buffer (int_of_idx sz) \<noteq> 0"
      "\<forall>i < n. PQputCopyData_answer pq (conn @ replicate i (PQputCopyData_call buffer (int_of_idx sz)))
          buffer (int_of_idx sz) = 0"
    by blast
  have "CopyData pq conn buffer sz =
     Some (if PQputCopyData_answer pq (conn @ replicate n (PQputCopyData_call buffer (int_of_idx sz)))
                buffer (int_of_idx sz) = - 1
           then Inl (InternalException (''Error during PQputCopyData: ''
                  @ PQerrorMessage pq (conn @ replicate (Suc n) (PQputCopyData_call buffer (int_of_idx sz)))))
           else Inr (),
           conn @ replicate (Suc n) (PQputCopyData_call buffer (int_of_idx sz)))"
    using n by (intro CopyData_returns) auto
  with assms n show ?thesis
    by (intro exI [of _ n]) (auto split: if_splits)
qed

text \<open>
  C7: \<open>CopyData\<close> sends the buffer again as long as \<open>PQputCopyData\<close> answers 0, and reports
  nothing of it. When the first answer other than 0 comes after \<open>n\<close> zeros, the call has
  made \<open>n + 1\<close> sends; it throws when that answer is \<open>-1\<close>, with the connection's error
  message, and returns normally otherwise (so for every positive answer). When every
  answer is 0 it never returns. It throws in no other case.
\<close>

theorem CopyData_retries_until_answer:
  fixes pq :: libpq and conn :: PGconn and buffer :: string and sz :: nat
  defines "call \<equiv> PQputCopyData_call buffer (int_of_idx sz)"
  defines "answer \<equiv> \<lambda>n. PQputCopyData_answer pq (conn @ replicate n call) buffer (int_of_idx sz)"
  shows "((\<forall>i < n. answer i = 0) \<and> answer n \<noteq> 0 \<longrightarrow>
        CopyData pq conn buffer sz =
          Some (if answer n = - 1
                then Inl (InternalException (''Error during PQputCopyData: ''
                       @ PQerrorMessage pq (conn @ replicate (Suc n) call)))
                else Inr (),
                conn @ replicate (Suc n) call))
   \<and> ((\<forall>i. answer i = 0) \<longrightarrow> CopyData pq conn buffer sz = None)
   \<and> (CopyData pq conn buffer sz = Some (out, conn') \<longrightarrow>
        (\<exists>k. (\<forall>i < k. answer i = 0) \<and> answer k \<noteq> 0 \<and> conn' = conn @ replicate (Suc k) call
           \<and> (isl out \<longleftrightarrow> answer k = - 1)))"
proof (intro conjI impI)
  assume "(\<forall>i < n. answer i = 0) \<and> answer n \<noteq> 0"
  then show "CopyData pq conn buffer sz =
          Some (if answer n = - 1
                then Inl (InternalException (''Error during PQputCopyData: ''
                       @ PQerrorMessage pq (conn @ replicate (Suc n) call)))
                else Inr (),
                conn @ replicate (Suc n) call)"
    unfolding answer_def call_def by (intro CopyData_returns) auto
next
  assume "\<forall>i. answer i = 0"
  then show "CopyData pq conn buffer sz = None"
    unfolding answer_def call_def by (intro CopyData_None) auto
next
  assume "CopyData pq conn buffer sz = Some (out, conn')"
  from CopyData_Some [OF this]
  show "\<exists>k. (\<forall>i < k. answer i = 0) \<and> answer k \<noteq> 0 \<and> conn' = conn @ replicate (Suc k) call
           \<and> (isl out \<longleftrightarrow> answer k = - 1)"
    unfolding answer_def call_def .
qed

lemma scripted_sends [simp]:
  "PQputCopyData_answer (scripted_libpq executed sends ended final message) conn buffer nbytes =
     sends (length conn)"
  "PQputCopyEnd_answer (scripted_libpq executed sends ended final message) conn = ended"
  "PQgetResult_answer (scripted_libpq executed sends ended final message) conn = final"
  "PQExecute_answer (scripted_libpq executed sends ended final message) conn query = executed"
  "PQerrorMessage (scripted_libpq executed sends ended final message) conn = message"
  by (simp_all add: scripted_libpq_def)

theorem CopyData_retries_until_answer_witness:
  "CopyData (scripted_libpq None (\<lambda>k. if k < 2 then 0 else 1) 1 None ''no buffer space'') [] ''ab'' 2
     = Some (Inr (), replicate 3 (PQputCopyData_call ''ab'' (int_of_idx 2)))
   \<and> CopyData (scripted_libpq None (\<lambda>k. if k < 2 then 0 else - 1) 1 None ''connection lost'') [] ''ab'' 2
     = Some (Inl (InternalException ''Error during PQputCopyData: connection lost''),
             replicate 3 (PQputCopyData_call ''ab'' (int_of_idx 2)))
   \<and> CopyData (scripted_libpq None (\<lambda>k. 0) 1 None ''no buffer space'') [] ''ab'' 2 = None"
  using CopyData_retries_until_answer
      [where pq = "scripted_libpq None (\<lambda>k. if k < 2 then 0 else 1) 1 None ''no buffer space''"
         and conn = "[]" and buffer = "''ab''" and sz = 2 and n = 2
         and out = "Inr ()" and conn' = "replicate 3 (PQputCopyData_call ''ab'' (int_of_idx 2))"]
    CopyData_retries_until_answer
      [where pq = "scripted_libpq None (\<lambda>k. if k < 2 then 0 else - 1) 1 None ''connection lost''"
         and conn = "[]" and buffer = "''ab''" and sz = 2 and n = 2]
    CopyData_retries_until_answer
      [where pq = "scripted_libpq None (\<lambda>k. 0) 1 None ''no buffer space''"
         and conn = "[]" and buffer = "''ab''" and sz = 2]
  by (simp add: numeral_3_eq_3)


text \<open>
  C6: for the binary and the text format, \<open>FinishCopyTo\<close> first sends the footer of that
  format's writer (and throws what \<open>CopyData\<close> throws, or never returns, when that send
  does). Then it signals the end of the copy data, and throws with the connection's error
  message when the answer is not 1. Then it fetches the result, and throws with the
  result's error message when there is none or its status is not \<open>PGRES_COMMAND_OK\<close>, also
  after an end signal that was accepted. It returns normally only after the footer sends,
  the end signal and the fetch, in this order, with the end signal answered 1 and the
  result's status \<open>PGRES_COMMAND_OK\<close>.
\<close>

theorem FinishCopyTo_handshake:
  fixes pq :: libpq and w :: writers and conn :: PGconn and state :: PostgresCopyState
  defines "footer \<equiv> (if format state = BINARY then PostgresBinaryWriter_WriteFooter w state
                      else PostgresTextWriter_WriteFooter w state)"
  defines "sent \<equiv> CopyData pq conn footer (length footer)"
  defines "footer_call \<equiv> PQputCopyData_call footer (int_of_idx (length footer))"
  assumes fmt: "format state = BINARY \<or> format state = TEXT"
  shows "(sent = None \<longrightarrow> FinishCopyTo pq w conn state = None)
   \<and> (sent = Some (Inl e, conn1) \<longrightarrow> FinishCopyTo pq w conn state = Some (Inl e, conn1))
   \<and> (sent = Some (Inr (), conn1) \<longrightarrow>
        (\<exists>n. conn1 = conn @ replicate (Suc n) footer_call)
        \<and> FinishCopyTo pq w conn state =
            (if PQputCopyEnd_answer pq conn1 \<noteq> 1
             then Some (Inl (InternalException
                          (''Error during PQputCopyEnd: ''
                             @ PQerrorMessage pq (conn1 @ [PQputCopyEnd_call]))),
                        conn1 @ [PQputCopyEnd_call])
             else if PQgetResult_answer pq (conn1 @ [PQputCopyEnd_call]) = None
                  \<or> PQresultStatus (PQgetResult_answer pq (conn1 @ [PQputCopyEnd_call]))
                      \<noteq> PGRES_COMMAND_OK
             then Some (Inl (runtime_error
                          (''Failed to copy data: ''
                             @ PQresultErrorMessage
                                 (PQgetResult_answer pq (conn1 @ [PQputCopyEnd_call])))),
                        conn1 @ [PQputCopyEnd_call, PQgetResult_call])
             else Some (Inr (), conn1 @ [PQputCopyEnd_call, PQgetResult_call])))
   \<and> (FinishCopyTo pq w conn state = Some (Inr (), conn') \<longrightarrow>
        (\<exists>n res. conn' = conn @ replicate (Suc n) footer_call @ [PQputCopyEnd_call, PQgetResult_call]
           \<and> PQputCopyEnd_answer pq (conn @ replicate (Suc n) footer_call) = 1
           \<and> PQgetResult_answer pq (conn @ replicate (Suc n) footer_call @ [PQputCopyEnd_call])
               = Some res
           \<and> result_status res = PGRES_COMMAND_OK))"
proof -
  have phase: "(if format state = BINARY
            then CopyData_writer pq conn (PostgresBinaryWriter_WriteFooter w state)
            else if format state = TEXT
            then CopyData_writer pq conn (PostgresTextWriter_WriteFooter w state)
            else Some (Inr (), conn)) = sent"
    using fmt by (auto simp: sent_def footer_def CopyData_writer_def)
  have fin: "FinishCopyTo pq w conn state =
     (case sent of
        None \<Rightarrow> None
      | Some (Inl e, conn) \<Rightarrow> Some (Inl e, conn)
      | Some (Inr u, conn) \<Rightarrow>
          if PQputCopyEnd_answer pq conn \<noteq> 1
          then Some (Inl (InternalException
                       (''Error during PQputCopyEnd: '' @ PQerrorMessage pq (conn @ [PQputCopyEnd_call]))),
                     conn @ [PQputCopyEnd_call])
          else if PQgetResult_answer pq (conn @ [PQputCopyEnd_call]) = None
                  \<or> PQresultStatus (PQgetResult_answer pq (conn @ [PQputCopyEnd_call]))
                      \<noteq> PGRES_COMMAND_OK
          then Some (Inl (runtime_error
                       (''Failed to copy data: ''
                          @ PQresultErrorMessage (PQgetResult_answer pq (conn @ [PQputCopyEnd_call])))),
                     conn @ [PQputCopyEnd_call, PQgetResult_call])
          else Some (Inr (), conn @ [PQputCopyEnd_call, PQgetResult_call]))"
    unfolding FinishCopyTo_def phase
    by (simp add: Let_def split: option.split sum.split prod.split)
  have c1: "sent = None \<longrightarrow> FinishCopyTo pq w conn state = None"
    by (simp add: fin)
  have c2: "sent = Some (Inl e, conn1) \<longrightarrow> FinishCopyTo pq w conn state = Some (Inl e, conn1)"
    by (simp add: fin)
  have ext: "\<exists>n. c = conn @ replicate (Suc n) footer_call" if "sent = Some (out, c)" for out c
    using CopyData_Some [OF that [unfolded sent_def]] unfolding footer_call_def by blast
  have c3: "sent = Some (Inr (), conn1) \<longrightarrow>
        (\<exists>n. conn1 = conn @ replicate (Suc n) footer_call)
        \<and> FinishCopyTo pq w conn state =
            (if PQputCopyEnd_answer pq conn1 \<noteq> 1
             then Some (Inl (InternalException
                          (''Error during PQputCopyEnd: ''
                             @ PQerrorMessage pq (conn1 @ [PQputCopyEnd_call]))),
                        conn1 @ [PQputCopyEnd_call])
             else if PQgetResult_answer pq (conn1 @ [PQputCopyEnd_call]) = None
                  \<or> PQresultStatus (PQgetResult_answer pq (conn1 @ [PQputCopyEnd_call]))
                      \<noteq> PGRES_COMMAND_OK
             then Some (Inl (runtime_error
                          (''Failed to copy data: ''
                             @ PQresultErrorMessage
                                 (PQgetResult_answer pq (conn1 @ [PQputCopyEnd_call])))),
                        conn1 @ [PQputCopyEnd_call, PQgetResult_call])
             else Some (Inr (), conn1 @ [PQputCopyEnd_call, PQgetResult_call]))"
    using ext [of "Inr ()" conn1] by (simp add: fin)
  have c4: "FinishCopyTo pq w conn state = Some (Inr (), conn') \<longrightarrow>
        (\<exists>n res. conn' = conn @ replicate (Suc n) footer_call @ [PQputCopyEnd_call, PQgetResult_call]
           \<and> PQputCopyEnd_answer pq (conn @ replicate (Suc n) footer_call) = 1
           \<and> PQgetResult_answer pq (conn @ replicate (Suc n) footer_call @ [PQputCopyEnd_call])
               = Some res
           \<and> result_status res = PGRES_COMMAND_OK)"
  proof
    assume ok: "FinishCopyTo pq w conn state = Some (Inr (), conn')"
    then obtain c where c: "sent = Some (Inr (), c)"
      by (auto simp: fin split: option.splits sum.splits if_splits)
    from ext [OF c] obtain n where n: "c = conn @ replicate (Suc n) footer_call" by blast
    from ok c have "PQputCopyEnd_answer pq c = 1"
      and "conn' = c @ [PQputCopyEnd_call, PQgetResult_call]"
      and "\<exists>res. PQgetResult_answer pq (c @ [PQputCopyEnd_call]) = Some res
             \<and> result_status res = PGRES_COMMAND_OK"
      by (auto simp: fin PQresultStatus_def split: if_splits option.splits)
    then show "\<exists>n res. conn' = conn @ replicate (Suc n) footer_call @ [PQputCopyEnd_call, PQgetResult_call]
           \<and> PQputCopyEnd_answer pq (conn @ replicate (Suc n) footer_call) = 1
           \<and> PQgetResult_answer pq (conn @ replicate (Suc n) footer_call @ [PQputCopyEnd_call])
               = Some res
           \<and> result_status res = PGRES_COMMAND_OK"
      unfolding n by (metis append.assoc)
  qed
  from c1 c2 c3 c4 show ?thesis by blast
qed


theorem FinishCopyTo_handshake_witness:
  "FinishCopyTo (scripted_libpq None (\<lambda>k. 0) 1 None ''no buffer space'')
      \<lparr>PostgresBinaryWriter_WriteHeader = (\<lambda>st. ''PGCOPY''),
       PostgresBinaryWriter_WriteFooter = (\<lambda>st. [CHR 0xFF, CHR 0xFF]),
       PostgresTextWriter_WriteFooter = (\<lambda>st. [])\<rparr>
      [] \<lparr>format = BINARY, has_null_byte_replacement = False, null_byte_replacement = []\<rparr>
     = None
   \<and> FinishCopyTo (scripted_libpq None (\<lambda>k. - 1) 1 None ''connection lost'')
      \<lparr>PostgresBinaryWriter_WriteHeader = (\<lambda>st. ''PGCOPY''),
       PostgresBinaryWriter_WriteFooter = (\<lambda>st. [CHR 0xFF, CHR 0xFF]),
       PostgresTextWriter_WriteFooter = (\<lambda>st. [])\<rparr>
      [] \<lparr>format = BINARY, has_null_byte_replacement = False, null_byte_replacement = []\<rparr>
     = Some (Inl (InternalException ''Error during PQputCopyData: connection lost''),
             [PQputCopyData_call [CHR 0xFF, CHR 0xFF] (int_of_idx 2)])
   \<and> FinishCopyTo
      (scripted_libpq None (\<lambda>k. 1) 1
         (Some \<lparr>result_status = PGRES_FATAL_ERROR, result_error_message = ''duplicate key''\<rparr>)
         [])
      \<lparr>PostgresBinaryWriter_WriteHeader = (\<lambda>st. ''PGCOPY''),
       PostgresBinaryWriter_WriteFooter = (\<lambda>st. [CHR 0xFF, CHR 0xFF]),
       PostgresTextWriter_WriteFooter = (\<lambda>st. [])\<rparr>
      [] \<lparr>format = BINARY, has_null_byte_replacement = False, null_byte_replacement = []\<rparr>
     = Some (Inl (runtime_error ''Failed to copy data: duplicate key''),
             [PQputCopyData_call [CHR 0xFF, CHR 0xFF] (int_of_idx 2), PQputCopyEnd_call,
              PQgetResult_call])
   \<and> FinishCopyTo
      (scripted_libpq None (\<lambda>k. 1) 1
         (Some \<lparr>result_status = PGRES_COMMAND_OK, result_error_message = []\<rparr>) [])
      \<lparr>PostgresBinaryWriter_WriteHeader = (\<lambda>st. ''PGCOPY''),
       PostgresBinaryWriter_WriteFooter = (\<lambda>st. [CHR 0xFF, CHR 0xFF]),
       PostgresTextWriter_WriteFooter = (\<lambda>st. [])\<rparr>
      [] \<lparr>format = BINARY, has_null_byte_replacement = False, null_byte_replacement = []\<rparr>
     = Some (Inr (),
             [PQputCopyData_call [CHR 0xFF, CHR 0xFF] (int_of_idx 2), PQputCopyEnd_call,
              PQgetResult_call])"
proof -
  let ?w = "\<lparr>PostgresBinaryWriter_WriteHeader = (\<lambda>st. ''PGCOPY''),
       PostgresBinaryWriter_WriteFooter = (\<lambda>st. [CHR 0xFF, CHR 0xFF]),
       PostgresTextWriter_WriteFooter = (\<lambda>st. [])\<rparr>"
  let ?st = "\<lparr>format = BINARY, has_null_byte_replacement = False, null_byte_replacement = []\<rparr>"
  let ?footer = "[CHR 0xFF, CHR 0xFF]"
  let ?call = "PQputCopyData_call ?footer (int_of_idx 2)"
  let ?never = "scripted_libpq None (\<lambda>k. 0) 1 None ''no buffer space''"
  let ?lost = "scripted_libpq None (\<lambda>k. - 1) 1 None ''connection lost''"
  let ?refused = "scripted_libpq None (\<lambda>k. 1) 1
         (Some \<lparr>result_status = PGRES_FATAL_ERROR, result_error_message = ''duplicate key''\<rparr>) []"
  let ?fine = "scripted_libpq None (\<lambda>k. 1) 1
         (Some \<lparr>result_status = PGRES_COMMAND_OK, result_error_message = []\<rparr>) []"
  have never: "CopyData ?never [] ?footer 2 = None"
    by (rule CopyData_None) simp
  have lost: "CopyData ?lost [] ?footer 2 =
      Some (Inl (InternalException ''Error during PQputCopyData: connection lost''), [?call])"
    using CopyData_returns [of 0 ?lost "[]" ?footer 2] by simp
  have refused: "CopyData ?refused [] ?footer 2 = Some (Inr (), [?call])"
    using CopyData_returns [of 0 ?refused "[]" ?footer 2] by simp
  have fine: "CopyData ?fine [] ?footer 2 = Some (Inr (), [?call])"
    using CopyData_returns [of 0 ?fine "[]" ?footer 2] by simp
  have two: "length ?footer = 2" by simp
  show ?thesis
    using never lost refused fine
      FinishCopyTo_handshake [where pq = ?never and w = ?w and conn = "[]" and state = ?st]
      FinishCopyTo_handshake [where pq = ?lost and w = ?w and conn = "[]" and state = ?st
        and e = "InternalException ''Error during PQputCopyData: connection lost''"
        and ?conn1.0 = "[?call]"]
      FinishCopyTo_handshake [where pq = ?refused and w = ?w and conn = "[]" and state = ?st
        and ?conn1.0 = "[?call]"]
      FinishCopyTo_handshake [where pq = ?fine and w = ?w and conn = "[]" and state = ?st
        and ?conn1.0 = "[?call]"
        and conn' = "[?call, PQputCopyEnd_call, PQgetResult_call]"]
    by (simp add: two PQresultStatus_def PQresultErrorMessage_def del: length_Cons list.size)
qed

lemma Initialize_loop_iff: "Initialize_loop s \<longleftrightarrow> CHR 0x00 \<in> set s"
  by (induction s) auto

text \<open>
  C8: \<open>Initialize\<close> throws exactly when the setting \<open>pg_null_byte_replacement\<close> is present, not
  NULL, and its string has a NUL byte. With a string without NUL bytes the string is
  recorded in the state and \<open>has_null_byte_replacement\<close> is set; with no setting or a NULL
  one the state is unchanged. When it throws, \<open>BeginCopyTo\<close> throws the same exception with
  no call made on the connection.
\<close>

theorem Initialize_rejects_NUL:
  "(isl (Initialize ctx state) \<longleftrightarrow>
      (\<exists>s. ctx ''pg_null_byte_replacement'' = Some (Value_String s) \<and> CHR 0x00 \<in> set s))
   \<and> (ctx ''pg_null_byte_replacement'' = Some (Value_String s) \<and> CHR 0x00 \<notin> set s \<longrightarrow>
        Initialize ctx state =
          Inr (state\<lparr>has_null_byte_replacement := True, null_byte_replacement := s\<rparr>))
   \<and> (ctx ''pg_null_byte_replacement'' = None
        \<or> ctx ''pg_null_byte_replacement'' = Some Value_NULL \<longrightarrow>
        Initialize ctx state = Inr state)
   \<and> (isl (Initialize ctx state) \<longrightarrow>
        BeginCopyTo pq w WriteQuoted ctx conn state fmt schema_name table_name column_names =
          Some (Inl (InternalException ''NULL byte replacement string cannot contain NULL values''),
                state, conn))"
proof -
  have a: "isl (Initialize ctx state) \<longleftrightarrow>
      (\<exists>s. ctx ''pg_null_byte_replacement'' = Some (Value_String s) \<and> CHR 0x00 \<in> set s)"
    by (auto simp: Initialize_def Initialize_loop_iff split: option.splits Value.splits)
  have b: "ctx ''pg_null_byte_replacement'' = Some (Value_String s) \<and> CHR 0x00 \<notin> set s \<longrightarrow>
        Initialize ctx state =
          Inr (state\<lparr>has_null_byte_replacement := True, null_byte_replacement := s\<rparr>)"
    by (simp add: Initialize_def Initialize_loop_iff)
  have c: "ctx ''pg_null_byte_replacement'' = None
        \<or> ctx ''pg_null_byte_replacement'' = Some Value_NULL \<longrightarrow>
        Initialize ctx state = Inr state"
    by (auto simp: Initialize_def)
  have d: "isl (Initialize ctx state) \<longrightarrow>
        BeginCopyTo pq w WriteQuoted ctx conn state fmt schema_name table_name column_names =
          Some (Inl (InternalException ''NULL byte replacement string cannot contain NULL values''),
                state, conn)"
  proof
    assume "isl (Initialize ctx state)"
    then have "Initialize ctx state =
        Inl (InternalException ''NULL byte replacement string cannot contain NULL values'')"
      by (auto simp: Initialize_def split: option.splits Value.splits if_splits)
    then show "BeginCopyTo pq w WriteQuoted ctx conn state fmt schema_name table_name column_names =
          Some (Inl (InternalException ''NULL byte replacement string cannot contain NULL values''),
                state, conn)"
      by (simp add: BeginCopyTo_def BeginCopyTo_query_def Let_def)
  qed
  from a b c d show ?thesis by blast
qed


theorem Initialize_rejects_NUL_witness:
  "isl (Initialize (\<lambda>name. if name = ''pg_null_byte_replacement''
                            then Some (Value_String [CHR ''a'', CHR 0x00]) else None)
          \<lparr>format = TEXT, has_null_byte_replacement = False, null_byte_replacement = []\<rparr>)
   \<and> Initialize (\<lambda>name. if name = ''pg_null_byte_replacement''
                            then Some (Value_String ''?'') else None)
          \<lparr>format = TEXT, has_null_byte_replacement = False, null_byte_replacement = []\<rparr>
       = Inr \<lparr>format = TEXT, has_null_byte_replacement = True, null_byte_replacement = ''?''\<rparr>
   \<and> Initialize (\<lambda>name. None)
          \<lparr>format = TEXT, has_null_byte_replacement = False, null_byte_replacement = []\<rparr>
       = Inr \<lparr>format = TEXT, has_null_byte_replacement = False, null_byte_replacement = []\<rparr>
   \<and> BeginCopyTo (scripted_libpq None (\<lambda>k. 1) 1 None [])
          \<lparr>PostgresBinaryWriter_WriteHeader = (\<lambda>st. ''PGCOPY''),
           PostgresBinaryWriter_WriteFooter = (\<lambda>st. [CHR 0xFF, CHR 0xFF]),
           PostgresTextWriter_WriteFooter = (\<lambda>st. [])\<rparr>
          (\<lambda>text quote. quote # text @ [quote])
          (\<lambda>name. if name = ''pg_null_byte_replacement''
                            then Some (Value_String [CHR ''a'', CHR 0x00]) else None)
          []
          \<lparr>format = TEXT, has_null_byte_replacement = False, null_byte_replacement = []\<rparr>
          TEXT [] ''t'' []
       = Some (Inl (InternalException ''NULL byte replacement string cannot contain NULL values''),
               \<lparr>format = TEXT, has_null_byte_replacement = False, null_byte_replacement = []\<rparr>,
               [])"
  using Initialize_rejects_NUL
      [where ctx = "\<lambda>name. if name = ''pg_null_byte_replacement''
                            then Some (Value_String [CHR ''a'', CHR 0x00]) else None"
         and state = "\<lparr>format = TEXT, has_null_byte_replacement = False, null_byte_replacement = []\<rparr>"
         and pq = "scripted_libpq None (\<lambda>k. 1) 1 None []"
         and w = "\<lparr>PostgresBinaryWriter_WriteHeader = (\<lambda>st. ''PGCOPY''),
           PostgresBinaryWriter_WriteFooter = (\<lambda>st. [CHR 0xFF, CHR 0xFF]),
           PostgresTextWriter_WriteFooter = (\<lambda>st. [])\<rparr>"
         and WriteQuoted = "\<lambda>text quote. quote # text @ [quote]"
         and conn = "[]" and fmt = TEXT and schema_name = "[]" and table_name = "''t''"
         and column_names = "[]"]
    Initialize_rejects_NUL
      [where ctx = "\<lambda>name. if name = ''pg_null_byte_replacement''
                            then Some (Value_String ''?'') else None"
         and state = "\<lparr>format = TEXT, has_null_byte_replacement = False, null_byte_replacement = []\<rparr>"
         and s = "''?''"]
    Initialize_rejects_NUL
      [where ctx = "\<lambda>name. None"
         and state = "\<lparr>format = TEXT, has_null_byte_replacement = False, null_byte_replacement = []\<rparr>"]
  by simp

lemma column_loop_eq:
  "for_loop 0 (length column_names)
     (\<lambda>c query. (if c > 0 then query @ '', '' else query) @ WriteQuoted (column_names ! c) DQUOTE)
     acc =
   acc @ join_spec '', '' (map (\<lambda>name. WriteQuoted name DQUOTE) column_names)"
proof -
  have "for_loop 0 (length column_names)
     (\<lambda>c query. (if c > 0 then query @ '', '' else query) @ WriteQuoted (column_names ! c) DQUOTE)
     acc =
     acc @ concat (map (\<lambda>c. (if c > 0 then '', '' else []) @ WriteQuoted (column_names ! c) DQUOTE)
               [0..<length column_names])"
    by (rule for_loop_append) simp
  also have "\<dots> = acc @ join_spec '', ''
      (map (\<lambda>c. WriteQuoted (column_names ! c) DQUOTE) [0..<length column_names])"
    by (simp only: concat_separated)
  also have "map (\<lambda>c. WriteQuoted (column_names ! c) DQUOTE) [0..<length column_names] =
      map (\<lambda>name. WriteQuoted name DQUOTE) column_names"
    by (rule nth_equalityI) simp_all
  finally show ?thesis .
qed

lemma BeginCopyTo_query_eq:
  assumes "fmt = BINARY \<or> fmt = TEXT" and "Initialize ctx state = Inr state1"
  shows "BeginCopyTo_query WriteQuoted ctx state fmt schema_name table_name column_names =
     (Inr (copy_command_spec (\<lambda>name. WriteQuoted name DQUOTE) fmt schema_name table_name column_names),
      state1\<lparr>format := fmt\<rparr>)"
  using assms
  by (auto simp: BeginCopyTo_query_def copy_command_spec_def column_loop_eq Let_def)

text \<open>
  C9: for the binary and the text format (and a setting that \<open>Initialize\<close> accepts), the
  query that \<open>BeginCopyTo\<close> builds is \<open>COPY\<close>, the quoted schema and a dot when the schema
  name is not empty, the quoted table, the quoted columns between parentheses and
  separated by \<open>, \<close> when there are columns, \<open>FROM STDIN\<close>, and \<open>BINARY)\<close> or
  \<open>TEXT (NULL '<backspace>'))\<close>; every identifier goes through \<open>WriteQuoted\<close> with the
  double quote. The first call on the connection executes this text (as a C string), and
  the exception of a refused command quotes it.
\<close>

theorem BeginCopyTo_command_text:
  assumes fmt: "fmt = BINARY \<or> fmt = TEXT" and init: "Initialize ctx state = Inr state1"
  shows "BeginCopyTo_query WriteQuoted ctx state fmt schema_name table_name column_names =
     (Inr (copy_command_spec (\<lambda>name. WriteQuoted name DQUOTE) fmt schema_name table_name column_names),
      state1\<lparr>format := fmt\<rparr>)
   \<and> copy_command_spec (\<lambda>name. WriteQuoted name DQUOTE) fmt schema_name table_name column_names =
       ''COPY ''
       @ (if schema_name = [] then [] else WriteQuoted schema_name DQUOTE @ ''.'')
       @ WriteQuoted table_name DQUOTE @ '' ''
       @ (if column_names = [] then []
          else ''('' @ join_spec '', '' (map (\<lambda>name. WriteQuoted name DQUOTE) column_names) @ '') '')
       @ ''FROM STDIN ''
       @ (if fmt = BINARY then ''BINARY)''
          else ''TEXT (NULL '' @ [CHR 0x27, CHR 0x08, CHR 0x27] @ ''))'')
   \<and> (BeginCopyTo pq w WriteQuoted ctx conn state fmt schema_name table_name column_names
         = Some (outcome, state', conn') \<longrightarrow>
        (\<exists>rest. conn' = conn @ PQExecute_call
            (c_str (copy_command_spec (\<lambda>name. WriteQuoted name DQUOTE) fmt schema_name table_name
                      column_names)) # rest))
   \<and> (PQExecute_answer pq conn
          (c_str (copy_command_spec (\<lambda>name. WriteQuoted name DQUOTE) fmt schema_name table_name
                    column_names)) = None \<longrightarrow>
        BeginCopyTo pq w WriteQuoted ctx conn state fmt schema_name table_name column_names
          = Some (Inl (runtime_error
                    (''Failed to prepare COPY '' @ [DQUOTE]
                       @ copy_command_spec (\<lambda>name. WriteQuoted name DQUOTE) fmt schema_name
                           table_name column_names
                       @ [DQUOTE] @ '': '')),
                  state1\<lparr>format := fmt\<rparr>,
                  conn @ [PQExecute_call
                     (c_str (copy_command_spec (\<lambda>name. WriteQuoted name DQUOTE) fmt schema_name
                               table_name column_names))]))"
proof -
  let ?q = "copy_command_spec (\<lambda>name. WriteQuoted name DQUOTE) fmt schema_name table_name column_names"
  note q = BeginCopyTo_query_eq [OF fmt init, of WriteQuoted schema_name table_name column_names]
  let ?st = "state1\<lparr>format := fmt\<rparr>"
  let ?conn1 = "conn @ [PQExecute_call (c_str ?q)]"
  have beg: "BeginCopyTo pq w WriteQuoted ctx conn state fmt schema_name table_name column_names =
      (if PQExecute_answer pq conn (c_str ?q) = None
          \<or> PQresultStatus (PQExecute_answer pq conn (c_str ?q)) \<noteq> PGRES_COPY_IN
       then Some (Inl (runtime_error
                    (''Failed to prepare COPY '' @ [DQUOTE] @ ?q @ [DQUOTE] @ '': ''
                       @ PQresultErrorMessage (PQExecute_answer pq conn (c_str ?q)))),
                  ?st, ?conn1)
       else if fmt = BINARY
       then (case CopyData pq ?conn1 (PostgresBinaryWriter_WriteHeader w ?st)
                    (length (PostgresBinaryWriter_WriteHeader w ?st)) of
               None \<Rightarrow> None
             | Some (outcome, conn) \<Rightarrow> Some (outcome, ?st, conn))
       else Some (Inr (), ?st, ?conn1))"
    by (simp add: BeginCopyTo_def q Let_def CopyData_writer_def)
  have c: "BeginCopyTo pq w WriteQuoted ctx conn state fmt schema_name table_name column_names
         = Some (outcome, state', conn') \<longrightarrow>
        (\<exists>rest. conn' = conn @ PQExecute_call (c_str ?q) # rest)"
  proof
    assume "BeginCopyTo pq w WriteQuoted ctx conn state fmt schema_name table_name column_names
         = Some (outcome, state', conn')"
    then consider "conn' = ?conn1"
      | "CopyData pq ?conn1 (PostgresBinaryWriter_WriteHeader w ?st)
           (length (PostgresBinaryWriter_WriteHeader w ?st)) = Some (outcome, conn')"
      unfolding beg by (auto split: if_splits option.splits)
    then show "\<exists>rest. conn' = conn @ PQExecute_call (c_str ?q) # rest"
    proof cases
      case 1
      then show ?thesis by simp
    next
      case 2
      from CopyData_Some [OF this] show ?thesis by auto
    qed
  qed
  have d: "PQExecute_answer pq conn (c_str ?q) = None \<longrightarrow>
        BeginCopyTo pq w WriteQuoted ctx conn state fmt schema_name table_name column_names
          = Some (Inl (runtime_error (''Failed to prepare COPY '' @ [DQUOTE] @ ?q @ [DQUOTE] @ '': '')),
                  state1\<lparr>format := fmt\<rparr>, conn @ [PQExecute_call (c_str ?q)])"
    unfolding beg by (simp add: PQresultErrorMessage_def)
  from q c d show ?thesis
    unfolding copy_command_spec_def by blast
qed


theorem BeginCopyTo_command_text_witness:
  "BeginCopyTo_query
      (\<lambda>text quote. quote # concat (map (\<lambda>c. if c = quote then [quote, quote] else [c]) text) @ [quote])
      (\<lambda>name. None)
      \<lparr>format = OTHER_FORMAT, has_null_byte_replacement = False, null_byte_replacement = []\<rparr>
      BINARY ''main'' ''t'' [''a'', ''b'']
     = (Inr (''COPY '' @ [DQUOTE] @ ''main'' @ [DQUOTE] @ ''.'' @ [DQUOTE] @ ''t'' @ [DQUOTE]
             @ '' ('' @ [DQUOTE] @ ''a'' @ [DQUOTE] @ '', '' @ [DQUOTE] @ ''b'' @ [DQUOTE]
             @ '') FROM STDIN BINARY)''),
        \<lparr>format = BINARY, has_null_byte_replacement = False, null_byte_replacement = []\<rparr>)
   \<and> BeginCopyTo_query
      (\<lambda>text quote. quote # concat (map (\<lambda>c. if c = quote then [quote, quote] else [c]) text) @ [quote])
      (\<lambda>name. None)
      \<lparr>format = OTHER_FORMAT, has_null_byte_replacement = False, null_byte_replacement = []\<rparr>
      TEXT [] ''t'' []
     = (Inr (''COPY '' @ [DQUOTE] @ ''t'' @ [DQUOTE] @ '' FROM STDIN TEXT (NULL ''
             @ [CHR 0x27, CHR 0x08, CHR 0x27] @ ''))''),
        \<lparr>format = TEXT, has_null_byte_replacement = False, null_byte_replacement = []\<rparr>)
   \<and> BeginCopyTo (scripted_libpq None (\<lambda>k. 1) 1 None [])
      \<lparr>PostgresBinaryWriter_WriteHeader = (\<lambda>st. ''PGCOPY''),
       PostgresBinaryWriter_WriteFooter = (\<lambda>st. [CHR 0xFF, CHR 0xFF]),
       PostgresTextWriter_WriteFooter = (\<lambda>st. [])\<rparr>
      (\<lambda>text quote. quote # concat (map (\<lambda>c. if c = quote then [quote, quote] else [c]) text) @ [quote])
      (\<lambda>name. None) []
      \<lparr>format = OTHER_FORMAT, has_null_byte_replacement = False, null_byte_replacement = []\<rparr>
      TEXT [] ''t'' []
     = Some (Inl (runtime_error
               (''Failed to prepare COPY '' @ [DQUOTE]
                  @ ''COPY '' @ [DQUOTE] @ ''t'' @ [DQUOTE] @ '' FROM STDIN TEXT (NULL ''
                  @ [CHR 0x27, CHR 0x08, CHR 0x27] @ ''))'' @ [DQUOTE] @ '': '')),
             \<lparr>format = TEXT, has_null_byte_replacement = False, null_byte_replacement = []\<rparr>,
             [PQExecute_call
                (''COPY '' @ [DQUOTE] @ ''t'' @ [DQUOTE] @ '' FROM STDIN TEXT (NULL ''
                   @ [CHR 0x27, CHR 0x08, CHR 0x27] @ ''))'')])"
proof -
  let ?wq = "\<lambda>text quote. quote # concat (map (\<lambda>c. if c = quote then [quote, quote] else [c]) text) @ [quote]"
  let ?st = "\<lparr>format = OTHER_FORMAT, has_null_byte_replacement = False, null_byte_replacement = []\<rparr>"
  let ?pq = "scripted_libpq None (\<lambda>k. 1) 1 None []"
  let ?w = "\<lparr>PostgresBinaryWriter_WriteHeader = (\<lambda>st. ''PGCOPY''),
       PostgresBinaryWriter_WriteFooter = (\<lambda>st. [CHR 0xFF, CHR 0xFF]),
       PostgresTextWriter_WriteFooter = (\<lambda>st. [])\<rparr>"
  have init: "Initialize (\<lambda>name. None) ?st = Inr ?st"
    by (simp add: Initialize_def)
  have b: "BINARY = BINARY \<or> BINARY = TEXT" and t: "TEXT = BINARY \<or> TEXT = TEXT"
    by simp_all
  note binary = BeginCopyTo_command_text [OF b init, where WriteQuoted = ?wq
      and schema_name = "''main''" and table_name = "''t''" and column_names = "[''a'', ''b'']"
      and pq = ?pq and w = ?w and conn = "[]"]
  note text_fmt = BeginCopyTo_command_text [OF t init, where WriteQuoted = ?wq
      and schema_name = "[]" and table_name = "''t''" and column_names = "[]"
      and pq = ?pq and w = ?w and conn = "[]"
      and outcome = "Inl (runtime_error
               (''Failed to prepare COPY '' @ [DQUOTE]
                  @ ''COPY '' @ [DQUOTE] @ ''t'' @ [DQUOTE] @ '' FROM STDIN TEXT (NULL ''
                  @ [CHR 0x27, CHR 0x08, CHR 0x27] @ ''))'' @ [DQUOTE] @ '': ''))"
      and state' = "\<lparr>format = TEXT, has_null_byte_replacement = False, null_byte_replacement = []\<rparr>"
      and conn' = "[PQExecute_call
                (''COPY '' @ [DQUOTE] @ ''t'' @ [DQUOTE] @ '' FROM STDIN TEXT (NULL ''
                   @ [CHR 0x27, CHR 0x08, CHR 0x27] @ ''))'')]"]
  show ?thesis
    using binary text_fmt by (simp add: c_str_def)
qed

end
